theory Spec2Isabelle
  imports Complex_Main
begin

section \<open>The multi-frame spatial cache of NextPoints: data model\<close>

text \<open>
  The development follows \<^verbatim>\<open>public/js/data.js\<close> (class \<^verbatim>\<open>Data\<close>, the cache manager)
  and \<^verbatim>\<open>public/js/world.js\<close> (classes \<^verbatim>\<open>Images\<close> and \<^verbatim>\<open>World\<close>, the frame cache
  entry) together with \<^verbatim>\<open>public/js/ego_pose.js\<close> (class \<^verbatim>\<open>EgoPose\<close>).

  JavaScript objects have identity. A \<^verbatim>\<open>World\<close> is referred to by a reference into a
  heap of entries held in the manager's state, and an offset array carries the
  identity of the array object next to its contents, since
  \<^verbatim>\<open>Array.prototype.includes\<close> compares arrays by identity. JavaScript numbers that
  count or index are integers here; coordinates are real numbers (the rounding of
  IEEE doubles is not modelled).
\<close>

type_synonym ref = nat

type_synonym cell = "int \<times> int \<times> int"

text \<open>An offset array \<^verbatim>\<open>[x, y, z]\<close>: the identity of the array object and its contents.\<close>

type_synonym offset = "nat \<times> cell"

type_synonym vec3 = "real \<times> real \<times> real"

datatype error = TypeError | UnsupportedRotationFormat

subsection \<open>Property lookup on an object literal\<close>

text \<open>
  \<^verbatim>\<open>refEgoPose = {}\<close> in \<^verbatim>\<open>Data\<close> and \<^verbatim>\<open>loaded_flag = {}\<close> in \<^verbatim>\<open>Images\<close> are plain
  objects: a lookup \<^verbatim>\<open>obj[name]\<close> that finds no own property goes on to
  \<^verbatim>\<open>Object.prototype\<close>. For the names below it yields an inherited member (a
  function, or the prototype object for \<^verbatim>\<open>__proto__\<close>), which is neither nullish
  nor falsy; for every other name it yields \<^verbatim>\<open>undefined\<close>.
\<close>

definition Object_prototype_names :: "string list" where
  "Object_prototype_names =
     [''constructor'', ''__defineGetter__'', ''__defineSetter__'', ''hasOwnProperty'',
      ''__lookupGetter__'', ''__lookupSetter__'', ''isPrototypeOf'', ''propertyIsEnumerable'',
      ''toString'', ''valueOf'', ''__proto__'', ''toLocaleString'']"

definition inherited :: "string \<Rightarrow> bool" where
  "inherited name = (name \<in> set Object_prototype_names)"

subsection \<open>Matrices, vectors and quaternions of the rendering library\<close>

text \<open>
  Modelled from the spec: \<^verbatim>\<open>public/js/lib/three.module.js\<close> is not among the source
  files. \<^verbatim>\<open>world.js\<close> uses its \<^verbatim>\<open>Matrix4\<close>, \<^verbatim>\<open>Vector3\<close>, \<^verbatim>\<open>Vector4\<close>,
  \<^verbatim>\<open>Quaternion\<close> and \<^verbatim>\<open>Euler\<close>. The spec (section 4.3) asks for 4x4
  homogeneous transforms, a rotation built from a quaternion together with a
  translation, composition of transforms, exact matrix inverses, and point
  conversion by one matrix-vector multiply. The definitions below are these
  operations over the real numbers, with the library's conventions: a matrix is
  written in row-major order as in \<^verbatim>\<open>Matrix4.set\<close>; \<^verbatim>\<open>invert\<close> of a matrix of
  determinant 0 is the zero matrix; \<^verbatim>\<open>Vector3.applyMatrix4\<close> divides by the
  homogeneous coordinate.
\<close>

datatype quat = Quaternion (qx: real) (qy: real) (qz: real) (qw: real)

datatype vec4 = Vector4 real real real real

datatype mat4 = Matrix4
  (n11: real) (n12: real) (n13: real) (n14: real)
  (n21: real) (n22: real) (n23: real) (n24: real)
  (n31: real) (n32: real) (n33: real) (n34: real)
  (n41: real) (n42: real) (n43: real) (n44: real)

definition Matrix4_identity :: mat4 where
  "Matrix4_identity = Matrix4 1 0 0 0  0 1 0 0  0 0 1 0  0 0 0 1"

definition Matrix4_zero :: mat4 where
  "Matrix4_zero = Matrix4 0 0 0 0  0 0 0 0  0 0 0 0  0 0 0 0"

text \<open>\<^verbatim>\<open>m.setPosition(x, y, z)\<close> overwrites the translation column.\<close>

definition setPosition :: "mat4 \<Rightarrow> vec3 \<Rightarrow> mat4" where
  "setPosition m p = (case p of (x, y, z) \<Rightarrow>
     Matrix4 (n11 m) (n12 m) (n13 m) x
             (n21 m) (n22 m) (n23 m) y
             (n31 m) (n32 m) (n33 m) z
             (n41 m) (n42 m) (n43 m) (n44 m))"

text \<open>
  \<^verbatim>\<open>makeRotationFromQuaternion(q)\<close>: the library composes position 0, the
  quaternion and scale 1. The quaternion is not normalised.
\<close>

definition makeRotationFromQuaternion :: "quat \<Rightarrow> mat4" where
  "makeRotationFromQuaternion q =
     (let x = qx q; y = qy q; z = qz q; w = qw q;
          x2 = x + x; y2 = y + y; z2 = z + z;
          xx = x * x2; xy = x * y2; xz = x * z2;
          yy = y * y2; yz = y * z2; zz = z * z2;
          wx = w * x2; wy = w * y2; wz = w * z2
      in Matrix4 (1 - (yy + zz)) (xy - wz) (xz + wy) 0
                 (xy + wz) (1 - (xx + zz)) (yz - wx) 0
                 (xz - wy) (yz + wx) (1 - (xx + yy)) 0
                 0 0 0 1)"

definition multiplyMatrices :: "mat4 \<Rightarrow> mat4 \<Rightarrow> mat4" where
  "multiplyMatrices a b = Matrix4
     (n11 a * n11 b + n12 a * n21 b + n13 a * n31 b + n14 a * n41 b)
     (n11 a * n12 b + n12 a * n22 b + n13 a * n32 b + n14 a * n42 b)
     (n11 a * n13 b + n12 a * n23 b + n13 a * n33 b + n14 a * n43 b)
     (n11 a * n14 b + n12 a * n24 b + n13 a * n34 b + n14 a * n44 b)
     (n21 a * n11 b + n22 a * n21 b + n23 a * n31 b + n24 a * n41 b)
     (n21 a * n12 b + n22 a * n22 b + n23 a * n32 b + n24 a * n42 b)
     (n21 a * n13 b + n22 a * n23 b + n23 a * n33 b + n24 a * n43 b)
     (n21 a * n14 b + n22 a * n24 b + n23 a * n34 b + n24 a * n44 b)
     (n31 a * n11 b + n32 a * n21 b + n33 a * n31 b + n34 a * n41 b)
     (n31 a * n12 b + n32 a * n22 b + n33 a * n32 b + n34 a * n42 b)
     (n31 a * n13 b + n32 a * n23 b + n33 a * n33 b + n34 a * n43 b)
     (n31 a * n14 b + n32 a * n24 b + n33 a * n34 b + n34 a * n44 b)
     (n41 a * n11 b + n42 a * n21 b + n43 a * n31 b + n44 a * n41 b)
     (n41 a * n12 b + n42 a * n22 b + n43 a * n32 b + n44 a * n42 b)
     (n41 a * n13 b + n42 a * n23 b + n43 a * n33 b + n44 a * n43 b)
     (n41 a * n14 b + n42 a * n24 b + n43 a * n34 b + n44 a * n44 b)"

definition det3 ::
  "real \<Rightarrow> real \<Rightarrow> real \<Rightarrow> real \<Rightarrow> real \<Rightarrow> real \<Rightarrow> real \<Rightarrow> real \<Rightarrow> real \<Rightarrow> real" where
  "det3 a b c d e f g h i = a * (e * i - f * h) - b * (d * i - f * g) + c * (d * h - e * g)"

text \<open>The determinant, expanded along the first column as \<^verbatim>\<open>invert\<close> computes it.\<close>

definition determinant :: "mat4 \<Rightarrow> real" where
  "determinant m =
     n11 m * det3 (n22 m) (n23 m) (n24 m) (n32 m) (n33 m) (n34 m) (n42 m) (n43 m) (n44 m)
   - n21 m * det3 (n12 m) (n13 m) (n14 m) (n32 m) (n33 m) (n34 m) (n42 m) (n43 m) (n44 m)
   + n31 m * det3 (n12 m) (n13 m) (n14 m) (n22 m) (n23 m) (n24 m) (n42 m) (n43 m) (n44 m)
   - n41 m * det3 (n12 m) (n13 m) (n14 m) (n22 m) (n23 m) (n24 m) (n32 m) (n33 m) (n34 m)"

text \<open>
  \<^verbatim>\<open>m.invert()\<close>: the transposed cofactors over the determinant;
  \<^verbatim>\<open>if (det === 0) return this.set(0, ..., 0)\<close>.
\<close>

definition invert :: "mat4 \<Rightarrow> mat4" where
  "invert m =
     (let det = determinant m in
      if det = 0 then Matrix4_zero
      else Matrix4
        (det3 (n22 m) (n23 m) (n24 m) (n32 m) (n33 m) (n34 m) (n42 m) (n43 m) (n44 m) / det)
        (- det3 (n12 m) (n13 m) (n14 m) (n32 m) (n33 m) (n34 m) (n42 m) (n43 m) (n44 m) / det)
        (det3 (n12 m) (n13 m) (n14 m) (n22 m) (n23 m) (n24 m) (n42 m) (n43 m) (n44 m) / det)
        (- det3 (n12 m) (n13 m) (n14 m) (n22 m) (n23 m) (n24 m) (n32 m) (n33 m) (n34 m) / det)
        (- det3 (n21 m) (n23 m) (n24 m) (n31 m) (n33 m) (n34 m) (n41 m) (n43 m) (n44 m) / det)
        (det3 (n11 m) (n13 m) (n14 m) (n31 m) (n33 m) (n34 m) (n41 m) (n43 m) (n44 m) / det)
        (- det3 (n11 m) (n13 m) (n14 m) (n21 m) (n23 m) (n24 m) (n41 m) (n43 m) (n44 m) / det)
        (det3 (n11 m) (n13 m) (n14 m) (n21 m) (n23 m) (n24 m) (n31 m) (n33 m) (n34 m) / det)
        (det3 (n21 m) (n22 m) (n24 m) (n31 m) (n32 m) (n34 m) (n41 m) (n42 m) (n44 m) / det)
        (- det3 (n11 m) (n12 m) (n14 m) (n31 m) (n32 m) (n34 m) (n41 m) (n42 m) (n44 m) / det)
        (det3 (n11 m) (n12 m) (n14 m) (n21 m) (n22 m) (n24 m) (n41 m) (n42 m) (n44 m) / det)
        (- det3 (n11 m) (n12 m) (n14 m) (n21 m) (n22 m) (n24 m) (n31 m) (n32 m) (n34 m) / det)
        (- det3 (n21 m) (n22 m) (n23 m) (n31 m) (n32 m) (n33 m) (n41 m) (n42 m) (n43 m) / det)
        (det3 (n11 m) (n12 m) (n13 m) (n31 m) (n32 m) (n33 m) (n41 m) (n42 m) (n43 m) / det)
        (- det3 (n11 m) (n12 m) (n13 m) (n21 m) (n22 m) (n23 m) (n41 m) (n42 m) (n43 m) / det)
        (det3 (n11 m) (n12 m) (n13 m) (n21 m) (n22 m) (n23 m) (n31 m) (n32 m) (n33 m) / det))"

text \<open>
  \<^verbatim>\<open>new Vector3(x, y, z).applyMatrix4(m)\<close>: the library multiplies by
  \<^verbatim>\<open>1 / (e[3] x + e[7] y + e[11] z + e[15])\<close>. A zero denominator gives
  non-finite coordinates in JavaScript: \<open>None\<close> here.
\<close>

definition Vector3_applyMatrix4 :: "vec3 \<Rightarrow> mat4 \<Rightarrow> vec3 option" where
  "Vector3_applyMatrix4 v m = (case v of (x, y, z) \<Rightarrow>
     (let h = n41 m * x + n42 m * y + n43 m * z + n44 m in
      if h = 0 then None
      else Some ((n11 m * x + n12 m * y + n13 m * z + n14 m) * (1 / h),
                 (n21 m * x + n22 m * y + n23 m * z + n24 m) * (1 / h),
                 (n31 m * x + n32 m * y + n33 m * z + n34 m) * (1 / h))))"

definition Vector4_applyMatrix4 :: "vec4 \<Rightarrow> mat4 \<Rightarrow> vec4" where
  "Vector4_applyMatrix4 v m = (case v of Vector4 x y z w \<Rightarrow>
     Vector4 (n11 m * x + n12 m * y + n13 m * z + n14 m * w)
             (n21 m * x + n22 m * y + n23 m * z + n24 m * w)
             (n31 m * x + n32 m * y + n33 m * z + n34 m * w)
             (n41 m * x + n42 m * y + n43 m * z + n44 m * w))"

subsection \<open>The offset allocator state of \<^verbatim>\<open>Data\<close>\<close>

text \<open>
  The fields \<^verbatim>\<open>offsetList\<close>, \<^verbatim>\<open>lastSeedOffset\<close> and \<^verbatim>\<open>offsetsAliveCount\<close> of
  \<^verbatim>\<open>Data\<close>. \<open>next_array\<close> is the identity the next array literal receives.
\<close>

record Offsets =
  offsetList :: "offset list"
  lastSeedOffset :: cell
  offsetsAliveCount :: int
  next_array :: nat

text \<open>The field initialisers of the class: \<^verbatim>\<open>offsetList = [[0, 0, 0]]\<close> and so on.\<close>

definition Offsets_init :: Offsets where
  "Offsets_init =
     \<lparr>offsetList = [(0, (0, 0, 0))], lastSeedOffset = (0, 0, 0),
      offsetsAliveCount = 0, next_array = 1\<rparr>"

text \<open>
  \<^verbatim>\<open>this.offsetList.includes(offset)\<close> on an array of arrays: SameValueZero on
  objects is identity of the object, whatever the contents.
\<close>

definition includes_array :: "offset list \<Rightarrow> offset \<Rightarrow> bool" where
  "includes_array l a = (fst a \<in> fst ` set l)"

text \<open>
  \<^verbatim>\<open>newOffsets.forEach(offset => { if (!this.offsetList.includes(offset))
  this.offsetList.push(offset); })\<close>
\<close>

fun push_new :: "offset list \<Rightarrow> offset list \<Rightarrow> offset list" where
  "push_new l [] = l"
| "push_new l (a # as) = push_new (if includes_array l a then l else l @ [a]) as"

text \<open>
  \<^verbatim>\<open>allocateOffset\<close>. The eight array literals of \<^verbatim>\<open>newOffsets\<close> are fresh objects.
  In JavaScript \<^verbatim>\<open>-x\<close> of \<^verbatim>\<open>0\<close> is \<^verbatim>\<open>-0\<close>, which is the integer 0.
  \<^verbatim>\<open>pop()\<close> of an empty array returns \<^verbatim>\<open>undefined\<close> (\<open>None\<close>).
\<close>

definition allocateOffset :: "Offsets \<Rightarrow> offset option \<times> Offsets" where
  "allocateOffset d =
     (let d1 = (if offsetsAliveCount d = 0
                then d\<lparr>offsetList := [(next_array d, (0, 0, 0))],
                       lastSeedOffset := (0, 0, 0),
                       next_array := next_array d + 1\<rparr>
                else d);
          d2 = (if offsetList d1 = []
                then (case lastSeedOffset d1 of (x0, y0, z0) \<Rightarrow>
                   (let x = (if x0 = y0 then x0 + 1 else x0);
                        y = (if x0 = y0 then 0 else y0 + 1);
                        n = next_array d1;
                        newOffsets =
                          [(n, (x, y, 0)), (n + 1, (- x, y, 0)),
                           (n + 2, (x, - y, 0)), (n + 3, (- x, - y, 0)),
                           (n + 4, (y, x, 0)), (n + 5, (- y, x, 0)),
                           (n + 6, (y, - x, 0)), (n + 7, (- y, - x, 0))]
                    in d1\<lparr>lastSeedOffset := (x, y, 0),
                          offsetList := push_new (offsetList d1) newOffsets,
                          next_array := n + 8\<rparr>))
                else d1);
          d3 = d2\<lparr>offsetsAliveCount := offsetsAliveCount d2 + 1\<rparr>
      in (case rev (offsetList d3) of
            [] \<Rightarrow> (None, d3)
          | a # front \<Rightarrow> (Some a, d3\<lparr>offsetList := rev front\<rparr>)))"

text \<open>\<^verbatim>\<open>returnOffset(offset)\<close>: push, then decrement the alive count.\<close>

definition returnOffset :: "offset \<Rightarrow> Offsets \<Rightarrow> Offsets" where
  "returnOffset a d =
     d\<lparr>offsetList := offsetList d @ [a], offsetsAliveCount := offsetsAliveCount d - 1\<rparr>"

text \<open>The contents of the array an allocation returned.\<close>

definition cell_of :: "offset option \<times> Offsets \<Rightarrow> cell option" where
  "cell_of r = map_option snd (fst r)"

subsection \<open>Frame cache entries and the manager\<close>

text \<open>
  The ego pose payload, a truthy value parsed from JSON, as \<^verbatim>\<open>calcTransformMatrix\<close>
  reads it: \<^verbatim>\<open>pose.transform.translation\<close> with its coordinates and
  \<^verbatim>\<open>pose.transform.rotation\<close> with its components. \<open>None\<close>: the object has no
  \<^verbatim>\<open>transform\<close>, or no such property under it, and reading the coordinates throws a
  \<^verbatim>\<open>TypeError\<close>. The format of the developer guide,
  \<^verbatim>\<open>{"translation": [...], "rotation": [...]}\<close>, has neither.
\<close>

record pose =
  translation :: "vec3 option"
  rotation :: "quat option"

type_synonym scene_handle = nat

text \<open>
  The closure \<^verbatim>\<open>() => { if (!dontDestroyOld && old) old.unload(); }\<close> that
  \<^verbatim>\<open>activate_world\<close> passes to \<^verbatim>\<open>World.activate\<close>: it captures
  \<^verbatim>\<open>dontDestroyOld\<close> and \<^verbatim>\<open>old\<close>.
\<close>

datatype destroy_cb = UnloadOld bool "ref option"

text \<open>
  What an operation does to its collaborators, in order. The callbacks handed in by
  callers outside this subsystem (\<^verbatim>\<open>on_preload_finished\<close>, \<^verbatim>\<open>on_finished\<close>) and the
  methods of \<^verbatim>\<open>Lidar\<close> and \<^verbatim>\<open>Annotation\<close> are recorded here when they are called;
  each is taken to return normally.
\<close>

datatype effect =
    CalcTransformMatrix ref
  | PreloadCallback ref
  | DestroyOldWorldCallback ref
  | SceneAdd ref
  | SceneRemove ref
  | LidarGo ref
  | AnnotationGo ref
  | LidarUnload ref
  | AnnotationUnload ref
  | LidarDeleteAll ref
  | AnnotationDeleteAll ref
  | OnFinished ref

text \<open>
  A \<^verbatim>\<open>World\<close> with the state of its parts that this subsystem reads:
  \<^verbatim>\<open>frameInfo\<close>, \<^verbatim>\<open>cameras\<close> (class \<^verbatim>\<open>Images\<close>), \<^verbatim>\<open>egoPose\<close> (class \<^verbatim>\<open>EgoPose\<close>),
  the flags \<^verbatim>\<open>lidar.preloaded\<close>, \<^verbatim>\<open>annotation.preloaded\<close> and
  \<^verbatim>\<open>annotation.modified\<close>, and the parent of \<^verbatim>\<open>webglGroup\<close> in the scene graph.
  \<open>has_preload_callback\<close> and \<open>on_finished\<close> say whether the caller passed a callback.
\<close>

record World =
  frameInfo_scene :: string
  frameInfo_frame :: int
  frameInfo_frame_index :: int
  frameInfo_pose :: "pose option"
  coordinatesOffset :: vec3
  offsetIndex :: offset
  has_preload_callback :: bool
  cameras_names :: "string list"
  cameras_loaded_flag :: "string list"
  lidar_preloaded :: bool
  annotation_preloaded :: bool
  annotation_modified :: bool
  egoPose_preloaded :: bool
  egoPose_egoPose :: "pose option"
  scene :: "scene_handle option"
  active :: bool
  everythingDone :: bool
  destroyed :: bool
  destroy_old_world :: "destroy_cb option"
  on_finished :: bool
  trans_lidar_utm :: "mat4 option"
  trans_lidar_scene :: "mat4 option"
  trans_utm_lidar :: "mat4 option"
  trans_scene_lidar :: "mat4 option"
  webglGroup_matrix :: mat4
  webglGroup_parent :: "scene_handle option"

text \<open>\<^verbatim>\<open>sceneMeta\<close>: the frame list, \<^verbatim>\<open>frameDetails[frame].pose\<close> and the camera names.\<close>

record SceneMeta =
  frames :: "int list"
  frameDetails_pose :: "int \<Rightarrow> pose option"
  camera :: "string list"

text \<open>
  The manager \<^verbatim>\<open>Data\<close>. \<open>worlds\<close> is the heap of \<^verbatim>\<open>World\<close> objects and \<open>next_world\<close>
  the reference of the next object; \<open>trace\<close> collects the effects.
\<close>

record Data =
  worlds :: "ref \<Rightarrow> World option"
  next_world :: ref
  worldList :: "ref list"
  world :: "ref option"
  webglMainScene :: "scene_handle option"
  refEgoPose :: "string \<Rightarrow> pose option"
  offsets :: Offsets
  worldGap :: real
  MaxWorldNumber :: int
  cfg_coordinateSystem :: string
  meta :: "string \<Rightarrow> SceneMeta option"
  trace :: "effect list"

text \<open>The field initialisers of \<^verbatim>\<open>Data\<close>, for a configuration's coordinate mode.\<close>

definition Data_init :: "string \<Rightarrow> Data" where
  "Data_init coordinateSystem =
     \<lparr>worlds = (\<lambda>w. None), next_world = 0, worldList = [], world = None,
      webglMainScene = None, refEgoPose = (\<lambda>s. None), offsets = Offsets_init,
      worldGap = 1000, MaxWorldNumber = 80, cfg_coordinateSystem = coordinateSystem,
      meta = (\<lambda>s. None), trace = []\<rparr>"

text \<open>
  An operation returns the state it leaves and the exception it threw, if any: a
  JavaScript exception keeps the writes made before it.
\<close>

type_synonym outcome = "error option \<times> Data"

definition andThen :: "outcome \<Rightarrow> (Data \<Rightarrow> outcome) \<Rightarrow> outcome" where
  "andThen r f = (case r of (None, d) \<Rightarrow> f d | (Some e, d) \<Rightarrow> (Some e, d))"

fun forEach :: "(ref \<Rightarrow> Data \<Rightarrow> outcome) \<Rightarrow> ref list \<Rightarrow> Data \<Rightarrow> outcome" where
  "forEach f [] d = (None, d)"
| "forEach f (w # ws) d = andThen (f w d) (forEach f ws)"

definition emit :: "effect \<Rightarrow> Data \<Rightarrow> Data" where
  "emit e d = d\<lparr>trace := trace d @ [e]\<rparr>"

text \<open>A write to fields of the \<^verbatim>\<open>World\<close> object behind a reference.\<close>

definition update_world :: "ref \<Rightarrow> (World \<Rightarrow> World) \<Rightarrow> Data \<Rightarrow> Data" where
  "update_world w f d =
     (case worlds d w of None \<Rightarrow> d | Some wd \<Rightarrow> d\<lparr>worlds := (worlds d)(w \<mapsto> f wd)\<rparr>)"

subsection \<open>\<^verbatim>\<open>World\<close>: the preload predicate and the transforms\<close>

text \<open>
  \<^verbatim>\<open>Images.loaded()\<close>: \<^verbatim>\<open>this.names.every(name => this.loaded_flag[name])\<close>.
  \<open>cameras_loaded_flag\<close> holds the own properties of \<^verbatim>\<open>loaded_flag\<close>, all of them
  \<^verbatim>\<open>true\<close>; for a camera named like a member of \<^verbatim>\<open>Object.prototype\<close> the lookup is
  truthy before its image has settled.
\<close>

definition Images_loaded :: "World \<Rightarrow> bool" where
  "Images_loaded wd =
     list_all (\<lambda>name. name \<in> set (cameras_loaded_flag wd) \<or> inherited name) (cameras_names wd)"

text \<open>
  \<^verbatim>\<open>World.preloaded()\<close>:
  \<^verbatim>\<open>return this.lidar.preloaded && this.annotation.preloaded && this.egoPose.preloaded\<close>.
\<close>

definition preloaded :: "World \<Rightarrow> bool" where
  "preloaded wd = (lidar_preloaded wd \<and> annotation_preloaded wd \<and> egoPose_preloaded wd)"

text \<open>
  What \<^verbatim>\<open>getRefEgoPose\<close> returns: a pose, or a member inherited from
  \<^verbatim>\<open>Object.prototype\<close>.
\<close>

datatype ref_lookup = RefPose pose | InheritedMember

text \<open>
  \<^verbatim>\<open>Data.getRefEgoPose\<close>:
  \<^verbatim>\<open>this.refEgoPose[sceneName] ?? (this.refEgoPose[sceneName] = currentPose)\<close>.
  \<open>refEgoPose\<close> of the state holds the own properties. For a scene named like a member
  of \<^verbatim>\<open>Object.prototype\<close> the lookup is not nullish, so nothing is stored and the
  inherited member is returned.
\<close>

definition getRefEgoPose :: "string \<Rightarrow> pose \<Rightarrow> Data \<Rightarrow> ref_lookup \<times> Data" where
  "getRefEgoPose sceneName currentPose d =
     (case refEgoPose d sceneName of
        Some p \<Rightarrow> (RefPose p, d)
      | None \<Rightarrow>
          if inherited sceneName then (InheritedMember, d)
          else (RefPose currentPose,
                d\<lparr>refEgoPose := (refEgoPose d)(sceneName \<mapsto> currentPose)\<rparr>))"

text \<open>
  \<^verbatim>\<open>World.calcTransformMatrix\<close>. The four matrices are stored on the entry and
  \<^verbatim>\<open>trans_lidar_scene\<close> is copied into \<^verbatim>\<open>webglGroup.matrix\<close>. The reference pose is
  looked up, and stored if there was none, before anything is read from the poses.
  Then \<^verbatim>\<open>pose.transform.translation.x - refPose.transform.translation.x\<close> and the
  arguments of \<^verbatim>\<open>new THREE.Quaternion(...)\<close> are read: a missing translation of
  the pose, an inherited member or a missing translation as the reference, or a
  missing rotation of the pose throw a \<^verbatim>\<open>TypeError\<close> before any matrix is built.
\<close>

definition calcTransformMatrix :: "ref \<Rightarrow> Data \<Rightarrow> outcome" where
  "calcTransformMatrix w d =
     (case worlds d w of
        None \<Rightarrow> (Some TypeError, d)
      | Some wd \<Rightarrow>
         (let d0 = emit (CalcTransformMatrix w) d;
              identity = Matrix4_identity;
              offset = setPosition Matrix4_identity (coordinatesOffset wd)
          in case egoPose_egoPose wd of
               Some p \<Rightarrow>
                (case getRefEgoPose (frameInfo_scene wd) p d0 of (r, d1) \<Rightarrow>
                  (case translation p of
                     None \<Rightarrow> (Some TypeError, d1)
                   | Some (px, py, pz) \<Rightarrow>
                  (case r of
                     InheritedMember \<Rightarrow> (Some TypeError, d1)
                   | RefPose refPose \<Rightarrow>
                  (case translation refPose of
                     None \<Rightarrow> (Some TypeError, d1)
                   | Some (rx, ry, rz) \<Rightarrow>
                  (case rotation p of
                     None \<Rightarrow> (Some TypeError, d1)
                   | Some quaternion \<Rightarrow>
                      (let posDelta = (px - rx, py - ry, pz - rz);
                           trans_lidar_ego = identity;
                           trans_ego_utm =
                             setPosition (makeRotationFromQuaternion quaternion) posDelta;
                           lidar_utm = multiplyMatrices trans_ego_utm trans_lidar_ego;
                           lidar_scene =
                             (if cfg_coordinateSystem d1 = ''utm''
                              then multiplyMatrices offset lidar_utm else offset)
                       in (None, update_world w (\<lambda>x. x
                            \<lparr>trans_lidar_utm := Some lidar_utm,
                             trans_lidar_scene := Some lidar_scene,
                             trans_utm_lidar := Some (invert lidar_utm),
                             trans_scene_lidar := Some (invert lidar_scene),
                             webglGroup_matrix := lidar_scene\<rparr>) d1)))))))
             | None \<Rightarrow>
                (None, update_world w (\<lambda>x. x
                   \<lparr>trans_lidar_utm := Some identity,
                    trans_lidar_scene := Some offset,
                    trans_utm_lidar := Some identity,
                    trans_scene_lidar := Some (invert offset),
                    webglGroup_matrix := offset\<rparr>) d0)))"

subsection \<open>\<^verbatim>\<open>World\<close>: activation, attachment, unloading and destruction\<close>

text \<open>
  Modelled from the spec: \<^verbatim>\<open>lidar.js\<close> and \<^verbatim>\<open>annotation.js\<close> are not among the
  source files. Their \<^verbatim>\<open>go\<close>, \<^verbatim>\<open>unload\<close> and \<^verbatim>\<open>deleteAll\<close> act on their own
  resources (spec, section 4.2: unload detaches and keeps the sub-state, deleteAll
  releases the sub-loader resources); they are recorded in the trace. The render
  space handle supports attach and detach (section 6): \<^verbatim>\<open>scene.add\<close> makes the
  scene the parent of the group, \<^verbatim>\<open>scene.remove\<close> detaches a group whose parent it
  is. A method call on \<^verbatim>\<open>null\<close> throws a \<^verbatim>\<open>TypeError\<close>.
\<close>

text \<open>\<^verbatim>\<open>World.unload()\<close>\<close>

definition World_unload :: "ref \<Rightarrow> Data \<Rightarrow> outcome" where
  "World_unload w d =
     (case worlds d w of
        None \<Rightarrow> (Some TypeError, d)
      | Some wd \<Rightarrow>
         if everythingDone wd then
           (let d1 = emit (AnnotationUnload w) (emit (LidarUnload w) d) in
            case scene wd of
              None \<Rightarrow> (Some TypeError, d1)
            | Some sc \<Rightarrow>
               (None, update_world w (\<lambda>x. x
                  \<lparr>webglGroup_parent :=
                     (if webglGroup_parent x = Some sc then None else webglGroup_parent x),
                   active := False, everythingDone := False\<rparr>)
                  (emit (SceneRemove w) d1)))
         else (None, d))"

text \<open>\<^verbatim>\<open>this.on_finished?.()\<close>\<close>

definition call_on_finished :: "ref \<Rightarrow> Data \<Rightarrow> Data" where
  "call_on_finished w d =
     (case worlds d w of
        None \<Rightarrow> d
      | Some wd \<Rightarrow> if on_finished wd then emit (OnFinished w) d else d)"

text \<open>\<^verbatim>\<open>this.destroy_old_world?.()\<close> with the closure of \<^verbatim>\<open>activate_world\<close>.\<close>

definition call_destroy_old_world :: "ref \<Rightarrow> Data \<Rightarrow> outcome" where
  "call_destroy_old_world w d =
     (case worlds d w of
        None \<Rightarrow> (Some TypeError, d)
      | Some wd \<Rightarrow>
         (case destroy_old_world wd of
            None \<Rightarrow> (None, d)
          | Some (UnloadOld dontDestroyOld old) \<Rightarrow>
             (let d1 = emit (DestroyOldWorldCallback w) d in
              case old of
                None \<Rightarrow> (None, d1)
              | Some ow \<Rightarrow> if dontDestroyOld then (None, d1) else World_unload ow d1)))"

text \<open>
  \<^verbatim>\<open>World.go()\<close>. The flag \<^verbatim>\<open>destroyed\<close> is read after the callback has run.
\<close>

definition World_go :: "ref \<Rightarrow> Data \<Rightarrow> outcome" where
  "World_go w d =
     (case worlds d w of
        None \<Rightarrow> (Some TypeError, d)
      | Some wd \<Rightarrow>
         if everythingDone wd then (None, call_on_finished w d)
         else if preloaded wd then
           andThen (call_destroy_old_world w d) (\<lambda>d1.
             case worlds d1 w of
               None \<Rightarrow> (Some TypeError, d1)
             | Some wd1 \<Rightarrow>
                if destroyed wd1 then World_unload w d1
                else
                  (case scene wd1 of
                     None \<Rightarrow> (Some TypeError, d1)
                   | Some sc \<Rightarrow>
                      (let d2 = update_world w (\<lambda>x. x\<lparr>webglGroup_parent := Some sc\<rparr>)
                                  (emit (SceneAdd w) d1);
                           d3 = emit (AnnotationGo w) (emit (LidarGo w) d2);
                           d4 = call_on_finished w d3
                       in (None, update_world w (\<lambda>x. x\<lparr>everythingDone := True\<rparr>) d4))))
         else (None, d))"

text \<open>\<^verbatim>\<open>World.activate(scene, destroy_old_world, on_finished)\<close>\<close>

definition World_activate ::
  "ref \<Rightarrow> scene_handle option \<Rightarrow> destroy_cb option \<Rightarrow> bool \<Rightarrow> Data \<Rightarrow> outcome" where
  "World_activate w sc cb fin d =
     (case worlds d w of
        None \<Rightarrow> (Some TypeError, d)
      | Some wd \<Rightarrow>
         (let d1 = update_world w (\<lambda>x. x
                     \<lparr>scene := sc, active := True, destroy_old_world := cb,
                      on_finished := fin\<rparr>) d
          in if preloaded wd then World_go w d1 else (None, d1)))"

text \<open>
  \<^verbatim>\<open>World.on_subitem_preload_finished(callback)\<close>, the check every sub-loader
  completion calls; \<^verbatim>\<open>callback\<close> is the constructor's \<^verbatim>\<open>on_preload_finished\<close>.
\<close>

definition on_subitem_preload_finished :: "ref \<Rightarrow> Data \<Rightarrow> outcome" where
  "on_subitem_preload_finished w d =
     (case worlds d w of
        None \<Rightarrow> (Some TypeError, d)
      | Some wd \<Rightarrow>
         if preloaded wd then
           andThen (calcTransformMatrix w d) (\<lambda>d1.
             (let d2 = (if has_preload_callback wd then emit (PreloadCallback w) d1 else d1) in
              case worlds d2 w of
                None \<Rightarrow> (Some TypeError, d2)
              | Some wd2 \<Rightarrow> if active wd2 then World_go w d2 else (None, d2)))
         else (None, d))"

text \<open>\<^verbatim>\<open>World.deleteAll()\<close>\<close>

definition World_deleteAll :: "ref \<Rightarrow> Data \<Rightarrow> outcome" where
  "World_deleteAll w d =
     (case worlds d w of
        None \<Rightarrow> (Some TypeError, d)
      | Some wd \<Rightarrow>
         andThen (if everythingDone wd then World_unload w d else (None, d)) (\<lambda>d1.
           case worlds d1 w of
             None \<Rightarrow> (Some TypeError, d1)
           | Some wd1 \<Rightarrow>
              if destroyed wd1 then (None, d1)
              else (None, update_world w (\<lambda>x. x\<lparr>destroyed := True\<rparr>)
                            (emit (AnnotationDeleteAll w) (emit (LidarDeleteAll w) d1)))))"

subsection \<open>\<^verbatim>\<open>World\<close>: point conversion\<close>

text \<open>The translation column of a matrix.\<close>

definition Matrix4_position :: "mat4 \<Rightarrow> vec3" where
  "Matrix4_position m = (n14 m, n24 m, n34 m)"

text \<open>
  \<^verbatim>\<open>scenePosToLidar(pos)\<close>:
  \<^verbatim>\<open>new THREE.Vector4(pos.x, pos.y, pos.z, 1).applyMatrix4(this.trans_scene_lidar)\<close>.
  Before the transforms are computed the matrix is \<^verbatim>\<open>undefined\<close> and the library
  call throws.
\<close>

definition scenePosToLidar :: "World \<Rightarrow> vec3 \<Rightarrow> error + vec4" where
  "scenePosToLidar x pos =
     (case trans_scene_lidar x of
        None \<Rightarrow> Inl TypeError
      | Some m \<Rightarrow> (case pos of (px, py, pz) \<Rightarrow> Inr (Vector4_applyMatrix4 (Vector4 px py pz 1) m)))"

text \<open>
  \<^verbatim>\<open>lidarPosToScene(pos)\<close>:
  \<^verbatim>\<open>new THREE.Vector3(pos.x, pos.y, pos.z).applyMatrix4(this.trans_lidar_scene)\<close>
\<close>

definition lidarPosToScene :: "World \<Rightarrow> vec3 \<Rightarrow> error + vec3 option" where
  "lidarPosToScene x pos =
     (case trans_lidar_scene x of
        None \<Rightarrow> Inl TypeError
      | Some m \<Rightarrow> Inr (Vector3_applyMatrix4 pos m))"

text \<open>\<^verbatim>\<open>lidarPosToUtm(pos)\<close>\<close>

definition lidarPosToUtm :: "World \<Rightarrow> vec3 \<Rightarrow> error + vec3 option" where
  "lidarPosToUtm x pos =
     (case trans_lidar_utm x of
        None \<Rightarrow> Inl TypeError
      | Some m \<Rightarrow> Inr (Vector3_applyMatrix4 pos m))"

subsection \<open>\<^verbatim>\<open>World\<close>: rotation conversion\<close>

text \<open>
  Modelled from the spec: the quaternion and Euler classes of
  \<^verbatim>\<open>three.module.js\<close> are not among the source files. Section 4.3 asks to
  represent the input as a quaternion, multiply by the quaternion extracted from a
  cached transform, renormalise and convert back to Euler angles of a given order.
  Product, norm and extraction from a rotation matrix are written out over the
  reals. The two conversions that compute with trigonometric functions,
  \<^verbatim>\<open>Quaternion.setFromEuler\<close> and the angles of \<^verbatim>\<open>Euler.setFromQuaternion\<close>, are
  parameters of the model.
\<close>

datatype euler = Euler (euler_x: real) (euler_y: real) (euler_z: real) (euler_order: string)







text \<open>
  A property of a plain object: absent, present with \<^verbatim>\<open>null\<close> or \<^verbatim>\<open>undefined\<close>,
  or a number. \<^verbatim>\<open>v ?? dflt\<close> replaces the first two.
\<close>

datatype js_field = Missing | Nullish | Num real



text \<open>
  The values a caller can pass as a rotation: a falsy value (\<^verbatim>\<open>null\<close>,
  \<^verbatim>\<open>undefined\<close>, \<^verbatim>\<open>0\<close>, the empty string), another primitive, a library
  quaternion, a library Euler, an array (an element \<open>None\<close> is \<^verbatim>\<open>null\<close> or
  \<^verbatim>\<open>undefined\<close>), or a plain object with its properties \<^verbatim>\<open>x\<close>, \<^verbatim>\<open>y\<close>, \<^verbatim>\<open>z\<close>,
  \<^verbatim>\<open>w\<close>.
\<close>

datatype rot =
    RotFalsy
  | RotPrimitive
  | RotQuaternion quat
  | RotEuler euler
  | RotArray "real option list"
  | RotObject js_field js_field js_field js_field














subsection \<open>Sub-loader completions\<close>

text \<open>
  Modelled from the spec: the point-cloud and annotation loaders (\<^verbatim>\<open>lidar.js\<close>,
  \<^verbatim>\<open>annotation.js\<close>) are not among the source files. By section 4.2 each is
  asynchronous, marks itself settled on completion, success or failure, and then
  invokes the shared check: the completions \<^verbatim>\<open>LidarPreloaded\<close> and
  \<^verbatim>\<open>AnnotationPreloaded\<close> below.

  The other two completions follow the source. \<^verbatim>\<open>EgoPose.load_ego_pose\<close>: when the
  request is done, a response of status 200 stores the parsed pose, then
  \<^verbatim>\<open>preloaded = true\<close> and the callback. \<^verbatim>\<open>Images.load\<close>: both \<^verbatim>\<open>onload\<close> and
  \<^verbatim>\<open>onerror\<close> of a camera image set its flag and call \<^verbatim>\<open>on_image_loaded\<close>, which
  calls the callback when \<^verbatim>\<open>loaded()\<close> holds.
\<close>

datatype subload =
    LidarPreloaded
  | AnnotationPreloaded
  | ImageSettled string
  | EgoPoseResponse "pose option"

definition deliver :: "ref \<Rightarrow> subload \<Rightarrow> Data \<Rightarrow> outcome" where
  "deliver w ev d =
     (case ev of
        LidarPreloaded \<Rightarrow>
          on_subitem_preload_finished w (update_world w (\<lambda>x. x\<lparr>lidar_preloaded := True\<rparr>) d)
      | AnnotationPreloaded \<Rightarrow>
          on_subitem_preload_finished w
            (update_world w (\<lambda>x. x\<lparr>annotation_preloaded := True\<rparr>) d)
      | EgoPoseResponse r \<Rightarrow>
          on_subitem_preload_finished w
            (update_world w (\<lambda>x. x
               \<lparr>egoPose_egoPose := (case r of Some p \<Rightarrow> Some p | None \<Rightarrow> egoPose_egoPose x),
                egoPose_preloaded := True\<rparr>) d)
      | ImageSettled cam \<Rightarrow>
          (case worlds d w of
             None \<Rightarrow> (Some TypeError, d)
           | Some wd \<Rightarrow>
              if cam \<in> set (cameras_names wd) then
                (if Images_loaded (wd\<lparr>cameras_loaded_flag := cam # cameras_loaded_flag wd\<rparr>)
                 then on_subitem_preload_finished w
                        (update_world w
                           (\<lambda>x. x\<lparr>cameras_loaded_flag := cam # cameras_loaded_flag x\<rparr>) d)
                 else (None, update_world w
                           (\<lambda>x. x\<lparr>cameras_loaded_flag := cam # cameras_loaded_flag x\<rparr>) d))
              else (None, d)))"

text \<open>
  \<^verbatim>\<open>EgoPose.preload\<close>: a pose already in \<^verbatim>\<open>frameInfo\<close> settles the pose loader at
  once; otherwise the request is sent and its response arrives later.
\<close>

definition EgoPose_preload :: "ref \<Rightarrow> Data \<Rightarrow> outcome" where
  "EgoPose_preload w d =
     (case worlds d w of
        None \<Rightarrow> (Some TypeError, d)
      | Some wd \<Rightarrow>
         (case frameInfo_pose wd of
            Some p \<Rightarrow>
              on_subitem_preload_finished w
                (update_world w (\<lambda>x. x\<lparr>egoPose_egoPose := Some p, egoPose_preloaded := True\<rparr>) d)
          | None \<Rightarrow> (None, d)))"

subsection \<open>\<^verbatim>\<open>Data\<close>: creating, activating and evicting entries\<close>

text \<open>\<^verbatim>\<open>frames.findIndex(x => x === frame)\<close>: the first index, or -1.\<close>

definition findIndex :: "int list \<Rightarrow> int \<Rightarrow> int" where
  "findIndex xs x = (if x \<in> set xs then int (length (takeWhile (\<lambda>y. y \<noteq> x) xs)) else - 1)"

text \<open>
  The constructor of \<^verbatim>\<open>World\<close> up to its call of \<^verbatim>\<open>preload\<close>. \<^verbatim>\<open>offsetIndex\<close> is
  the array \<^verbatim>\<open>_createWorld\<close> assigns when the constructor has returned.
\<close>

definition World_new :: "SceneMeta \<Rightarrow> string \<Rightarrow> int \<Rightarrow> vec3 \<Rightarrow> bool \<Rightarrow> offset \<Rightarrow> World" where
  "World_new sm sceneName frameId coords cb oi =
     \<lparr>frameInfo_scene = sceneName, frameInfo_frame = frameId,
      frameInfo_frame_index = findIndex (frames sm) frameId,
      frameInfo_pose = frameDetails_pose sm frameId,
      coordinatesOffset = coords, offsetIndex = oi, has_preload_callback = cb,
      cameras_names = camera sm, cameras_loaded_flag = [],
      lidar_preloaded = False, annotation_preloaded = False, annotation_modified = False,
      egoPose_preloaded = False, egoPose_egoPose = None,
      scene = None, active = False, everythingDone = False, destroyed = False,
      destroy_old_world = None, on_finished = False,
      trans_lidar_utm = None, trans_lidar_scene = None,
      trans_utm_lidar = None, trans_scene_lidar = None,
      webglGroup_matrix = Matrix4_identity, webglGroup_parent = None\<rparr>"

text \<open>
  \<^verbatim>\<open>Data._createWorld\<close>; the new entry's reference is \<open>next_world\<close> of the state
  before. The counter \<^verbatim>\<open>createWorldIndex\<close>, which nothing reads, is left out.
  \<open>meta\<close> of the state holds the own properties of \<^verbatim>\<open>this.meta\<close>. Without one for the
  scene, \<^verbatim>\<open>this.meta[sceneName]\<close> is \<^verbatim>\<open>undefined\<close> or a member inherited from
  \<^verbatim>\<open>Object.prototype\<close>, and \<^verbatim>\<open>this.sceneMeta.frames.findIndex\<close> in the constructor of
  \<^verbatim>\<open>FrameInfo\<close> throws a \<^verbatim>\<open>TypeError\<close> in both cases, after the offset was allocated.
\<close>

definition createWorld :: "string \<Rightarrow> int \<Rightarrow> bool \<Rightarrow> Data \<Rightarrow> outcome" where
  "createWorld sceneName frameId cb d =
     (case allocateOffset (offsets d) of (a, os) \<Rightarrow>
       (let d1 = d\<lparr>offsets := os\<rparr> in
        case a of
          None \<Rightarrow> (Some TypeError, d1)
        | Some (i, x, y, z) \<Rightarrow>
           (case meta d1 sceneName of
              None \<Rightarrow> (Some TypeError, d1)
            | Some sm \<Rightarrow>
               (let w = next_world d1;
                    oi = (next_array os, (x, y, z));
                    wd = World_new sm sceneName frameId
                           (worldGap d1 * real_of_int x, worldGap d1 * real_of_int y,
                            worldGap d1 * real_of_int z) cb oi;
                    d2 = d1\<lparr>worlds := (worlds d1)(w \<mapsto> wd), next_world := w + 1,
                            offsets := os\<lparr>next_array := next_array os + 1\<rparr>\<rparr>
                in andThen (EgoPose_preload w d2)
                     (\<lambda>d3. (None, d3\<lparr>worldList := worldList d3 @ [w]\<rparr>))))))"

text \<open>\<^verbatim>\<open>Data.activate_world(world, onFinished, dontDestroyOld)\<close>\<close>

definition activate_world :: "ref \<Rightarrow> bool \<Rightarrow> bool \<Rightarrow> Data \<Rightarrow> outcome" where
  "activate_world w onFinished dontDestroyOld d =
     (let old = world d; d1 = d\<lparr>world := Some w\<rparr> in
      World_activate w (webglMainScene d1) (Some (UnloadOld dontDestroyOld old)) onFinished d1)"

text \<open>The predicate \<^verbatim>\<open>removable\<close> of \<^verbatim>\<open>deleteDistantWorlds\<close>, read in a state.\<close>

definition removable :: "Data \<Rightarrow> int \<Rightarrow> ref \<Rightarrow> bool" where
  "removable d currentIndex w =
     (case worlds d w of
        None \<Rightarrow> False
      | Some wd \<Rightarrow>
         (let tooFar = (\<bar>frameInfo_frame_index wd - currentIndex\<bar> > MaxWorldNumber d);
              isSafe = (\<not> annotation_modified wd \<and> everythingDone wd)
          in tooFar \<and> isSafe))"

text \<open>\<^verbatim>\<open>this.returnOffset(w.offsetIndex); w.deleteAll();\<close>\<close>

definition evict :: "ref \<Rightarrow> Data \<Rightarrow> outcome" where
  "evict w d =
     (case worlds d w of
        None \<Rightarrow> (Some TypeError, d)
      | Some wd \<Rightarrow> World_deleteAll w (d\<lparr>offsets := returnOffset (offsetIndex wd) (offsets d)\<rparr>))"

text \<open>
  \<^verbatim>\<open>Data.deleteDistantWorlds(currentWorld)\<close>: \<^verbatim>\<open>toDelete\<close> is filtered in the
  state at entry; the final filter of \<^verbatim>\<open>worldList\<close> calls \<^verbatim>\<open>removable\<close> again, in
  the state the loop has left.
\<close>

definition deleteDistantWorlds :: "ref \<Rightarrow> Data \<Rightarrow> outcome" where
  "deleteDistantWorlds currentWorld d =
     (case worlds d currentWorld of
        None \<Rightarrow> (Some TypeError, d)
      | Some cw \<Rightarrow>
         (let currentIndex = frameInfo_frame_index cw;
              toDelete = filter (removable d currentIndex) (worldList d)
          in andThen (forEach evict toDelete d)
               (\<lambda>d1. (None, d1\<lparr>worldList :=
                                  filter (\<lambda>w. \<not> removable d1 currentIndex w) (worldList d1)\<rparr>))))"

subsection \<open>Sequences of calls\<close>

text \<open>
  The calls and completions that reach the subsystem, one per task of the event
  loop. An exception ends its task; the state it leaves is the state of the next.
\<close>

datatype call =
    Deliver ref subload
  | Check ref
  | ActivateWorld ref bool bool
  | Go ref
  | Unload ref
  | DeleteAll ref
  | DeleteDistantWorlds ref

definition perform :: "call \<Rightarrow> Data \<Rightarrow> outcome" where
  "perform c d =
     (case c of
        Deliver w ev \<Rightarrow> deliver w ev d
      | Check w \<Rightarrow> on_subitem_preload_finished w d
      | ActivateWorld w onFinished dontDestroyOld \<Rightarrow> activate_world w onFinished dontDestroyOld d
      | Go w \<Rightarrow> World_go w d
      | Unload w \<Rightarrow> World_unload w d
      | DeleteAll w \<Rightarrow> World_deleteAll w d
      | DeleteDistantWorlds w \<Rightarrow> deleteDistantWorlds w d)"

fun run :: "call list \<Rightarrow> Data \<Rightarrow> Data" where
  "run [] d = d"
| "run (c # cs) d = run cs (snd (perform c d))"

text \<open>How often an effect occurs in a trace, and whether one occurs before another.\<close>

definition occurrences :: "effect \<Rightarrow> Data \<Rightarrow> nat" where
  "occurrences e d = length (filter (\<lambda>x. x = e) (trace d))"


subsection \<open>Vocabulary of the proofs\<close>

text \<open>
  The settled flags of an entry that \<^verbatim>\<open>preloaded()\<close> reads, with the presence of
  the preload callback and the scene name; whether \<^verbatim>\<open>calcTransformMatrix\<close> of an
  entry throws in a state; whether the entry behind a reference is destroyed; how
  often an entry was attached to a render space (\<^verbatim>\<open>scene.add\<close>, \<^verbatim>\<open>lidar.go\<close>,
  \<^verbatim>\<open>annotation.go\<close>). \<open>quiet\<close> relates the states before and after an operation that
  runs no preload check; \<open>frame_step\<close> relates the states before and after one call
  that returned normally or not (\<open>ok\<close>): \<open>n\<close> runs of the transform computation
  and \<open>m\<close> runs of the preload callback. \<open>returns\<close>: no call of a sequence throws.
\<close>

definition loads :: "World \<Rightarrow> bool \<times> bool \<times> bool \<times> bool \<times> string" where
  "loads x = (lidar_preloaded x, annotation_preloaded x, egoPose_preloaded x,
              has_preload_callback x, frameInfo_scene x)"

definition transform_throws :: "Data \<Rightarrow> World \<Rightarrow> bool" where
  "transform_throws d x =
     (case egoPose_egoPose x of
        None \<Rightarrow> False
      | Some p \<Rightarrow>
          translation p = None \<or> rotation p = None \<or>
          (case refEgoPose d (frameInfo_scene x) of
             None \<Rightarrow> inherited (frameInfo_scene x)
           | Some f0 \<Rightarrow> translation f0 = None))"

definition destroyed_at :: "Data \<Rightarrow> ref \<Rightarrow> bool" where
  "destroyed_at d v = (case worlds d v of None \<Rightarrow> False | Some x \<Rightarrow> destroyed x)"

definition attachments :: "ref \<Rightarrow> Data \<Rightarrow> nat" where
  "attachments v d =
     occurrences (SceneAdd v) d + occurrences (LidarGo v) d + occurrences (AnnotationGo v) d"

definition quiet :: "ref \<Rightarrow> Data \<Rightarrow> Data \<Rightarrow> bool" where
  "quiet v d d' \<longleftrightarrow>
     map_option loads (worlds d' v) = map_option loads (worlds d v) \<and>
     (\<forall>u. occurrences (CalcTransformMatrix u) d' = occurrences (CalcTransformMatrix u) d \<and>
          occurrences (PreloadCallback u) d' = occurrences (PreloadCallback u) d) \<and>
     (\<forall>e. occurrences e d \<le> occurrences e d') \<and>
     (destroyed_at d v \<longrightarrow> destroyed_at d' v \<and> attachments v d' = attachments v d)"

definition frame_step ::
  "ref \<Rightarrow> World \<Rightarrow> bool \<Rightarrow> bool \<Rightarrow> bool \<Rightarrow> bool \<Rightarrow> Data \<Rightarrow> Data \<Rightarrow> bool" where
  "frame_step v x l a p ok d d' \<longleftrightarrow>
     (\<exists>x' n m. worlds d' v = Some x' \<and>
        has_preload_callback x' = has_preload_callback x \<and>
        frameInfo_scene x' = frameInfo_scene x \<and>
        lidar_preloaded x' = (lidar_preloaded x \<or> l) \<and>
        annotation_preloaded x' = (annotation_preloaded x \<or> a) \<and>
        egoPose_preloaded x' = (egoPose_preloaded x \<or> p) \<and>
        n \<le> (1::nat) \<and> (n = 1 \<longrightarrow> preloaded x') \<and> (\<not> preloaded x \<and> preloaded x' \<longrightarrow> n = 1) \<and>
        occurrences (CalcTransformMatrix v) d' = occurrences (CalcTransformMatrix v) d + n \<and>
        occurrences (PreloadCallback v) d' = occurrences (PreloadCallback v) d + m \<and>
        m \<le> n \<and> (\<not> has_preload_callback x \<longrightarrow> m = 0) \<and>
        (has_preload_callback x \<and> ok \<longrightarrow> m = n) \<and>
        (destroyed x \<longrightarrow> destroyed x' \<and> attachments v d' = attachments v d) \<and>
        (\<forall>e. occurrences e d \<le> occurrences e d'))"

fun returns :: "call list \<Rightarrow> Data \<Rightarrow> bool" where
  "returns [] d = True"
| "returns (c # cs) d = (fst (perform c d) = None \<and> returns cs (snd (perform c d)))"

text \<open>
  For eviction: how often an entry was detached or released (\<^verbatim>\<open>lidar.unload\<close>,
  \<^verbatim>\<open>annotation.unload\<close>, \<^verbatim>\<open>scene.remove\<close>, \<^verbatim>\<open>lidar.deleteAll\<close>,
  \<^verbatim>\<open>annotation.deleteAll\<close>); the offset arrays of a list of entries; whether an
  entry is not attached; the source's \<^verbatim>\<open>isSafe\<close>.
\<close>

definition removals :: "ref \<Rightarrow> Data \<Rightarrow> nat" where
  "removals v d =
     occurrences (LidarUnload v) d + occurrences (AnnotationUnload v) d +
     occurrences (SceneRemove v) d + occurrences (LidarDeleteAll v) d +
     occurrences (AnnotationDeleteAll v) d"

definition returned :: "Data \<Rightarrow> ref list \<Rightarrow> offset list" where
  "returned d us = concat (map (\<lambda>u. case worlds d u of None \<Rightarrow> [] | Some y \<Rightarrow> [offsetIndex y]) us)"

definition undone :: "Data \<Rightarrow> ref \<Rightarrow> bool" where
  "undone d v = (case worlds d v of None \<Rightarrow> True | Some x \<Rightarrow> \<not> everythingDone x)"

definition isSafe :: "Data \<Rightarrow> ref \<Rightarrow> bool" where
  "isSafe d u =
     (case worlds d u of None \<Rightarrow> False | Some y \<Rightarrow> \<not> annotation_modified y \<and> everythingDone y)"

text \<open>
  For the transforms: a matrix whose last row is (0, 0, 0, 1); the unit
  quaternions; and the quaternions whose rotation matrix is singular, \<open>w = 0\<close> with \<open>x\<^sup>2 + y\<^sup>2 + z\<^sup>2 = 1/2\<close>. The
  position of an entry's sensor origin in the vehicle-world frame.
\<close>

definition affine :: "mat4 \<Rightarrow> bool" where
  "affine m = (n41 m = 0 \<and> n42 m = 0 \<and> n43 m = 0 \<and> n44 m = 1)"

definition unit_quaternion :: "quat \<Rightarrow> bool" where
  "unit_quaternion q = ((qx q)\<^sup>2 + (qy q)\<^sup>2 + (qz q)\<^sup>2 + (qw q)\<^sup>2 = 1)"

definition degenerate :: "quat \<Rightarrow> bool" where
  "degenerate q = (qw q = 0 \<and> 2 * (qx q * qx q + qy q * qy q + qz q * qz q) = 1)"

text \<open>The determinant of the rotation matrix of a quaternion.\<close>

definition qdet :: "quat \<Rightarrow> real" where
  "qdet q = (1 - 2 * (qx q * qx q + qy q * qy q + qz q * qz q)) ^ 2 +
            4 * (qw q * qw q) * (qx q * qx q + qy q * qy q + qz q * qz q)"

definition lidar_utm_position :: "Data \<Rightarrow> ref \<Rightarrow> vec3 option" where
  "lidar_utm_position d w =
     (case worlds d w of
        None \<Rightarrow> None
      | Some y \<Rightarrow> map_option Matrix4_position (trans_lidar_utm y))"

text \<open>
  Where an entry's sensor origin is drawn: the translation of \<^verbatim>\<open>webglGroup.matrix\<close>,
  the copy of \<^verbatim>\<open>trans_lidar_scene\<close>, once the transforms are computed.
\<close>

definition render_position :: "Data \<Rightarrow> ref \<Rightarrow> vec3 option" where
  "render_position d w =
     (case worlds d w of
        None \<Rightarrow> None
      | Some y \<Rightarrow>
         (case trans_lidar_scene y of
            None \<Rightarrow> None
          | Some m \<Rightarrow> Some (Matrix4_position (webglGroup_matrix y))))"

subsection \<open>Example states\<close>

text \<open>
  Scene \<^verbatim>\<open>A\<close> with four frames, one camera and no pose in its metadata; a manager
  that has its render scene; and the state after \<^verbatim>\<open>_createWorld("A", 10, callback)\<close>:
  one entry, reference 0, all four sub-loads outstanding.
\<close>

definition example_meta :: SceneMeta where
  "example_meta = \<lparr>frames = [10, 11, 12, 13], frameDetails_pose = (\<lambda>f. None), camera = [''front'']\<rparr>"

definition example_data :: Data where
  "example_data = (Data_init ''utm'')
     \<lparr>webglMainScene := Some 0,
      meta := (\<lambda>s. if s = ''A'' then Some example_meta else None)\<rparr>"

definition example_entry :: Data where
  "example_entry = snd (createWorld ''A'' 10 True example_data)"

text \<open>
  A scene named \<^verbatim>\<open>toString\<close> whose only frame has a pose, and the state after
  \<^verbatim>\<open>_createWorld("toString", 10, callback)\<close> and the completions of the point-cloud
  and the annotation loader.
\<close>

definition prototype_meta :: SceneMeta where
  "prototype_meta =
     \<lparr>frames = [10],
      frameDetails_pose = (\<lambda>f.
        if f = 10 then Some \<lparr>translation = Some (1, 2, 3), rotation = Some (Quaternion 0 0 0 1)\<rparr> else None),
      camera = []\<rparr>"

definition prototype_entry :: Data where
  "prototype_entry =
     run [Deliver 0 LidarPreloaded, Deliver 0 AnnotationPreloaded]
       (snd (createWorld ''toString'' 10 True
          ((Data_init ''utm'')
             \<lparr>meta := (\<lambda>s. if s = ''toString'' then Some prototype_meta else None)\<rparr>)))"

text \<open>
  Scene \<^verbatim>\<open>A\<close> with a hundred frames and no camera, and a manager with two entries
  of it: entry 0 (frame index 0) preloaded, activated and attached, and entry 1
  (frame index 90) preloaded and dormant.
\<close>

definition long_meta :: SceneMeta where
  "long_meta = \<lparr>frames = map int [0..<100], frameDetails_pose = (\<lambda>f. None), camera = []\<rparr>"

definition long_data :: Data where
  "long_data = (Data_init ''utm'')
     \<lparr>webglMainScene := Some 0,
      meta := (\<lambda>s. if s = ''A'' then Some long_meta else None)\<rparr>"

definition two_entries :: Data where
  "two_entries =
     run [Deliver 0 LidarPreloaded, Deliver 0 AnnotationPreloaded, Deliver 0 (EgoPoseResponse None),
          ActivateWorld 0 True False,
          Deliver 1 LidarPreloaded, Deliver 1 AnnotationPreloaded, Deliver 1 (EgoPoseResponse None)]
       (snd (createWorld ''A'' 90 False (snd (createWorld ''A'' 0 False long_data))))"



text \<open>
  Scene \<^verbatim>\<open>A\<close> with two frames that carry poses, in the continuous coordinate mode.
  \<open>posed_created\<close>: entry 0 (frame 10) and entry 1 (frame 11) are created in this
  order, so entry 0 holds the cell (0, 0, 0) and entry 1 the cell (0, -1, 0).
  \<open>posed_entries\<close>: the sub-loads of entry 1 settle first, then those of entry 0. And
  a scene whose only frame has a pose with the quaternion (1/2, 1/2, 0, 0).
\<close>

definition posed_meta :: SceneMeta where
  "posed_meta =
     \<lparr>frames = [10, 11],
      frameDetails_pose = (\<lambda>f.
        if f = 10 then Some \<lparr>translation = Some (100, 200, 5), rotation = Some (Quaternion 0 0 0 1)\<rparr>
        else if f = 11
        then Some \<lparr>translation = Some (103, 204, 7), rotation = Some (Quaternion 0 0 (3 / 5) (4 / 5))\<rparr>
        else None),
      camera = []\<rparr>"

definition posed_created :: Data where
  "posed_created =
     snd (createWorld ''A'' 11 False (snd (createWorld ''A'' 10 False
       ((Data_init ''utm'')\<lparr>meta := (\<lambda>s. if s = ''A'' then Some posed_meta else None)\<rparr>))))"

definition posed_entries :: Data where
  "posed_entries =
     run [Deliver 1 LidarPreloaded, Deliver 1 AnnotationPreloaded,
          Deliver 0 LidarPreloaded, Deliver 0 AnnotationPreloaded] posed_created"

definition singular_meta :: SceneMeta where
  "singular_meta =
     \<lparr>frames = [10],
      frameDetails_pose = (\<lambda>f.
        if f = 10 then Some \<lparr>translation = Some (0, 0, 0), rotation = Some (Quaternion (1 / 2) (1 / 2) 0 0)\<rparr>
        else None),
      camera = []\<rparr>"

definition singular_entry :: Data where
  "singular_entry =
     run [Deliver 0 LidarPreloaded, Deliver 0 AnnotationPreloaded]
       (snd (createWorld ''A'' 10 False
          ((Data_init ''utm'')\<lparr>meta := (\<lambda>s. if s = ''A'' then Some singular_meta else None)\<rparr>)))"

section \<open>The offset allocator\<close>

text \<open>
  C3 (offset disjointness). The claim fails on the code. Three allocations on a
  fresh manager: the first takes the origin cell, the second finds the pool empty
  and generates the ring of seed (1, 0); none of its eight arrays is found by
  \<^verbatim>\<open>includes\<close>, so all eight are pushed, among them \<^verbatim>\<open>[0, -1, 0]\<close> and
  \<^verbatim>\<open>[-0, -1, 0]\<close>. The second and the third allocation pop these two: two live
  entries hold the cell (0, -1, 0).
\<close>

theorem allocateOffset_repeats_cell:
  "cell_of (allocateOffset Offsets_init) = Some (0, 0, 0) \<and>
   cell_of (allocateOffset (snd (allocateOffset Offsets_init))) = Some (0, - 1, 0) \<and>
   cell_of (allocateOffset (snd (allocateOffset (snd (allocateOffset Offsets_init)))))
     = Some (0, - 1, 0) \<and>
   offsetsAliveCount (snd (allocateOffset (snd (allocateOffset (snd (allocateOffset Offsets_init))))))
     = 3"
  by (simp add: cell_of_def allocateOffset_def Offsets_init_def includes_array_def)

section \<open>Reading a state after an operation\<close>

lemma emit_fields [simp]:
  "worlds (emit e d) = worlds d"
  "trace (emit e d) = trace d @ [e]"
  "worldList (emit e d) = worldList d"
  "world (emit e d) = world d"
  "offsets (emit e d) = offsets d"
  "refEgoPose (emit e d) = refEgoPose d"
  "webglMainScene (emit e d) = webglMainScene d"
  "MaxWorldNumber (emit e d) = MaxWorldNumber d"
  "cfg_coordinateSystem (emit e d) = cfg_coordinateSystem d"
  by (simp_all add: emit_def)

lemma update_world_fields [simp]:
  "worlds (update_world w f d) w' = (if w' = w then map_option f (worlds d w) else worlds d w')"
  "trace (update_world w f d) = trace d"
  "worldList (update_world w f d) = worldList d"
  "world (update_world w f d) = world d"
  "offsets (update_world w f d) = offsets d"
  "refEgoPose (update_world w f d) = refEgoPose d"
  "webglMainScene (update_world w f d) = webglMainScene d"
  "MaxWorldNumber (update_world w f d) = MaxWorldNumber d"
  "cfg_coordinateSystem (update_world w f d) = cfg_coordinateSystem d"
  by (simp_all add: update_world_def split: option.splits)

lemma occurrences_emit [simp]:
  "occurrences e (emit e' d) = occurrences e d + (if e' = e then 1 else 0)"
  by (simp add: occurrences_def)

lemma occurrences_update_world [simp]:
  "occurrences e (update_world w f d) = occurrences e d"
  by (simp add: occurrences_def)

lemma attachments_emit [simp]:
  "attachments v (emit e d) =
     attachments v d + (if e = SceneAdd v \<or> e = LidarGo v \<or> e = AnnotationGo v then 1 else 0)"
  by (auto simp: attachments_def)

lemma attachments_update_world [simp]:
  "attachments v (update_world w f d) = attachments v d"
  by (simp add: attachments_def)

lemma attachments_call_on_finished [simp]:
  "attachments v (call_on_finished w d) = attachments v d"
  by (simp add: attachments_def call_on_finished_def split: option.splits)

lemma occurrences_call_on_finished:
  "occurrences e (call_on_finished w d) =
     occurrences e d + (if e = OnFinished w \<and> (\<exists>x. worlds d w = Some x \<and> on_finished x) then 1 else 0)"
  by (auto simp: call_on_finished_def split: option.splits)

lemma call_on_finished_worlds [simp]: "worlds (call_on_finished w d) = worlds d"
  by (simp add: call_on_finished_def split: option.splits)

lemma snd_andThen:
  "snd (andThen r f) = (case fst r of None \<Rightarrow> snd (f (snd r)) | Some e \<Rightarrow> snd r)"
  by (auto simp: andThen_def split: prod.splits option.splits)

lemma quiet_refl [simp]: "quiet v d d"
  by (simp add: quiet_def)

lemma quiet_trans: "quiet v d d1 \<Longrightarrow> quiet v d1 d2 \<Longrightarrow> quiet v d d2"
  unfolding quiet_def by (metis order_trans)

lemma unload_quiet: "quiet v d (snd (World_unload w d))"
  by (auto simp: quiet_def World_unload_def loads_def destroyed_at_def Let_def split: option.splits)

lemma call_destroy_quiet: "quiet v d (snd (call_destroy_old_world w d))"
proof (cases "worlds d w")
  case None
  then show ?thesis by (simp add: call_destroy_old_world_def)
next
  case (Some wd)
  show ?thesis
  proof (cases "destroy_old_world wd")
    case None
    with Some show ?thesis by (simp add: call_destroy_old_world_def)
  next
    case (Some cb)
    obtain dont old where cb: "cb = UnloadOld dont old" by (cases cb)
    have e: "quiet v d (emit (DestroyOldWorldCallback w) d)"
      by (auto simp: quiet_def destroyed_at_def)
    show ?thesis
      using \<open>worlds d w = Some wd\<close> Some cb e
        quiet_trans [OF e unload_quiet [of v "emit (DestroyOldWorldCallback w) d"]]
      by (auto simp: call_destroy_old_world_def Let_def split: option.splits)
  qed
qed

lemma on_finished_quiet: "quiet v d (call_on_finished w d)"
  by (auto simp: quiet_def occurrences_call_on_finished destroyed_at_def)

lemma attach_quiet:
  assumes "worlds d1 w = Some wd1" "\<not> destroyed wd1"
  shows "quiet v d1
     (update_world w (\<lambda>x. x\<lparr>everythingDone := True\<rparr>)
        (call_on_finished w
           (emit (AnnotationGo w) (emit (LidarGo w)
              (update_world w (\<lambda>x. x\<lparr>webglGroup_parent := Some sc\<rparr>) (emit (SceneAdd w) d1))))))"
  using assms
  by (auto simp: quiet_def occurrences_call_on_finished destroyed_at_def loads_def)

lemma go_quiet: "quiet v d (snd (World_go w d))"
proof (cases "worlds d w")
  case None
  then show ?thesis by (simp add: World_go_def)
next
  case (Some wd)
  let ?r = "call_destroy_old_world w d"
  let ?d1 = "snd ?r"
  have q1: "quiet v d ?d1" by (rule call_destroy_quiet)
  have q2: "quiet v ?d1 (snd (World_unload w ?d1))" by (rule unload_quiet)
  have q3: "\<And>wd1 sc. worlds ?d1 w = Some wd1 \<Longrightarrow> \<not> destroyed wd1 \<Longrightarrow> quiet v ?d1
     (update_world w (\<lambda>x. x\<lparr>everythingDone := True\<rparr>)
        (call_on_finished w
           (emit (AnnotationGo w) (emit (LidarGo w)
              (update_world w (\<lambda>x. x\<lparr>webglGroup_parent := Some sc\<rparr>) (emit (SceneAdd w) ?d1))))))"
    by (rule attach_quiet)
  show ?thesis
    using Some q1 quiet_trans [OF q1 q2] quiet_trans [OF q1 q3] on_finished_quiet [of v d w]
    by (auto simp: World_go_def Let_def snd_andThen split: option.splits)
qed

lemma activate_quiet: "quiet v d (snd (World_activate w sc cb fin d))"
proof (cases "worlds d w")
  case None
  then show ?thesis by (simp add: World_activate_def)
next
  case (Some wd)
  let ?d1 = "update_world w (\<lambda>x. x\<lparr>scene := sc, active := True, destroy_old_world := cb,
                      on_finished := fin\<rparr>) d"
  have q1: "quiet v d ?d1"
    using Some by (auto simp: quiet_def destroyed_at_def loads_def)
  show ?thesis
    using Some q1 quiet_trans [OF q1 go_quiet [of v ?d1 w]]
    by (auto simp: World_activate_def Let_def)
qed

lemma deleteAll_quiet: "quiet v d (snd (World_deleteAll w d))"
proof (cases "worlds d w")
  case None
  then show ?thesis by (simp add: World_deleteAll_def)
next
  case (Some wd)
  let ?r = "if everythingDone wd then World_unload w d else (None, d)"
  let ?d1 = "snd ?r"
  have q1: "quiet v d ?d1" by (simp add: unload_quiet)
  have q2: "quiet v ?d1 (update_world w (\<lambda>x. x\<lparr>destroyed := True\<rparr>)
                            (emit (AnnotationDeleteAll w) (emit (LidarDeleteAll w) ?d1)))"
    by (auto simp: quiet_def destroyed_at_def loads_def split: option.splits)
  show ?thesis
    using Some q1 quiet_trans [OF q1 q2]
    by (auto simp: World_deleteAll_def Let_def snd_andThen split: option.splits)
qed

lemma evict_quiet: "quiet v d (snd (evict w d))"
proof (cases "worlds d w")
  case None
  then show ?thesis by (simp add: evict_def)
next
  case (Some wd)
  let ?d1 = "d\<lparr>offsets := returnOffset (offsetIndex wd) (offsets d)\<rparr>"
  have q1: "quiet v d ?d1"
    by (auto simp: quiet_def destroyed_at_def occurrences_def attachments_def)
  show ?thesis
    using Some quiet_trans [OF q1 deleteAll_quiet [of v ?d1 w]]
    by (simp add: evict_def)
qed

lemma forEach_evict_quiet: "quiet v d (snd (forEach evict ws d))"
proof (induction ws arbitrary: d)
  case Nil
  show ?case by simp
next
  case (Cons w ws)
  show ?case
    using evict_quiet [of v d w] quiet_trans [OF evict_quiet [of v d w] Cons.IH [of "snd (evict w d)"]]
    by (auto simp: snd_andThen split: option.splits)
qed

lemma deleteDistantWorlds_quiet: "quiet v d (snd (deleteDistantWorlds cw d))"
proof (cases "worlds d cw")
  case None
  then show ?thesis by (simp add: deleteDistantWorlds_def)
next
  case (Some c)
  let ?ws = "filter (removable d (frameInfo_frame_index c)) (worldList d)"
  let ?d1 = "snd (forEach evict ?ws d)"
  have q1: "quiet v d ?d1" by (rule forEach_evict_quiet)
  have q2: "\<And>l. quiet v ?d1 (?d1\<lparr>worldList := l\<rparr>)"
    by (auto simp: quiet_def destroyed_at_def occurrences_def attachments_def)
  show ?thesis
    using Some q1 quiet_trans [OF q1 q2]
    by (auto simp: deleteDistantWorlds_def Let_def snd_andThen split: option.splits)
qed

lemma activate_world_quiet: "quiet v d (snd (activate_world w fin dont d))"
proof -
  let ?d1 = "d\<lparr>world := Some w\<rparr>"
  have q1: "quiet v d ?d1"
    by (auto simp: quiet_def destroyed_at_def occurrences_def attachments_def)
  show ?thesis
    using quiet_trans [OF q1 activate_quiet [of v ?d1 w]]
    by (simp add: activate_world_def Let_def)
qed

lemma calc_throws:
  "worlds d w = Some wd \<Longrightarrow> transform_throws d wd \<Longrightarrow>
   fst (calcTransformMatrix w d) = Some TypeError \<and>
   worlds (snd (calcTransformMatrix w d)) = worlds d \<and>
   trace (snd (calcTransformMatrix w d)) = trace d @ [CalcTransformMatrix w]"
  by (auto simp: calcTransformMatrix_def Let_def getRefEgoPose_def transform_throws_def
      split: option.splits prod.splits ref_lookup.splits)

lemma calc_fst:
  "worlds d w = Some wd \<Longrightarrow>
   fst (calcTransformMatrix w d) = (if transform_throws d wd then Some TypeError else None)"
  by (auto simp: calcTransformMatrix_def Let_def getRefEgoPose_def transform_throws_def
      split: option.splits prod.splits ref_lookup.splits)

lemma calc_occurrences:
  "worlds d w = Some wd \<Longrightarrow>
   occurrences e (snd (calcTransformMatrix w d)) =
     occurrences e d + (if e = CalcTransformMatrix w then 1 else 0)"
  by (auto simp: calcTransformMatrix_def Let_def getRefEgoPose_def occurrences_def emit_def
      split: option.splits prod.splits ref_lookup.splits)

lemma calc_worlds:
  assumes w: "worlds d w = Some wd"
  shows "\<exists>a b c e m. worlds (snd (calcTransformMatrix w d)) =
     (worlds d)(w \<mapsto> wd\<lparr>trans_lidar_utm := a, trans_lidar_scene := b, trans_utm_lidar := c,
        trans_scene_lidar := e, webglGroup_matrix := m\<rparr>)"
proof (cases "transform_throws d wd")
  case True
  have "worlds d = (worlds d)(w \<mapsto> wd\<lparr>trans_lidar_utm := trans_lidar_utm wd,
      trans_lidar_scene := trans_lidar_scene wd, trans_utm_lidar := trans_utm_lidar wd,
      trans_scene_lidar := trans_scene_lidar wd, webglGroup_matrix := webglGroup_matrix wd\<rparr>)"
    using w by (auto simp: fun_eq_iff)
  then show ?thesis
    using calc_throws [OF w True] by (simp only:) blast
next
  case False
  with w show ?thesis
    by (auto simp: calcTransformMatrix_def Let_def getRefEgoPose_def update_world_def emit_def
        transform_throws_def split: option.splits prod.splits ref_lookup.splits intro!: exI)
qed

lemma check_throws:
  "worlds d v = Some x \<Longrightarrow> preloaded x \<Longrightarrow> transform_throws d x \<Longrightarrow>
   fst (on_subitem_preload_finished v d) = Some TypeError \<and>
   snd (on_subitem_preload_finished v d) = snd (calcTransformMatrix v d)"
  using calc_fst [of d v x]
  by (cases "calcTransformMatrix v d") (simp add: on_subitem_preload_finished_def andThen_def)

lemma check_frame:
  assumes w: "worlds d w = Some wd"
  shows "map_option loads (worlds (snd (on_subitem_preload_finished w d)) v) = map_option loads (worlds d v) \<and>
    (destroyed_at d v \<longrightarrow> destroyed_at (snd (on_subitem_preload_finished w d)) v \<and>
       attachments v (snd (on_subitem_preload_finished w d)) = attachments v d) \<and>
    (\<forall>e. occurrences e d \<le> occurrences e (snd (on_subitem_preload_finished w d))) \<and>
    (\<forall>u. occurrences (CalcTransformMatrix u) (snd (on_subitem_preload_finished w d)) =
       occurrences (CalcTransformMatrix u) d + (if u = w \<and> preloaded wd then 1 else 0)) \<and>
    (\<forall>u. occurrences (PreloadCallback u) (snd (on_subitem_preload_finished w d)) =
       occurrences (PreloadCallback u) d +
         (if u = w \<and> preloaded wd \<and> has_preload_callback wd \<and> \<not> transform_throws d wd
          then 1 else 0))"
proof (cases "preloaded wd")
  case False
  with w show ?thesis by (simp add: on_subitem_preload_finished_def)
next
  case True
  show ?thesis
  proof (cases "transform_throws d wd")
    case thr: True
    note ct = calc_throws [OF w thr]
    have r: "snd (on_subitem_preload_finished w d) = snd (calcTransformMatrix w d)"
      using check_throws [OF w True thr] by simp
    have o: "\<And>e. occurrences e (snd (calcTransformMatrix w d)) =
        occurrences e d + (if e = CalcTransformMatrix w then 1 else 0)"
      by (rule calc_occurrences [OF w])
    have at: "attachments v (snd (calcTransformMatrix w d)) = attachments v d"
      unfolding attachments_def o by simp
    show ?thesis
      unfolding r using True thr ct o at by (simp add: destroyed_at_def)
  next
    case nthr: False
    let ?d1 = "snd (calcTransformMatrix w d)"
    let ?d2 = "if has_preload_callback wd then emit (PreloadCallback w) ?d1 else ?d1"
    obtain a b c e m where ws: "worlds ?d1 =
       (worlds d)(w \<mapsto> wd\<lparr>trans_lidar_utm := a, trans_lidar_scene := b, trans_utm_lidar := c,
          trans_scene_lidar := e, webglGroup_matrix := m\<rparr>)"
      using calc_worlds [OF w] by blast
    have ws2: "worlds ?d2 = worlds ?d1" by simp
    have q: "quiet v ?d2 (snd (World_go w ?d2))" by (rule go_quiet)
    have o2: "\<And>e. occurrences e ?d2 = occurrences e d + (if e = CalcTransformMatrix w then 1 else 0)
         + (if e = PreloadCallback w \<and> has_preload_callback wd then 1 else 0)"
      using calc_occurrences [OF w] by auto
    have f: "fst (calcTransformMatrix w d) = None"
      using calc_fst [OF w] nthr by simp
    have res: "snd (on_subitem_preload_finished w d) = ?d2 \<or>
               snd (on_subitem_preload_finished w d) = snd (World_go w ?d2)"
      using w True f ws
      by (auto simp: on_subitem_preload_finished_def Let_def andThen_def split: prod.splits option.splits)
    have l2: "map_option loads (worlds ?d2 v) = map_option loads (worlds d v)"
      using w by (simp add: ws ws2 loads_def)
    have d2: "destroyed_at ?d2 v = destroyed_at d v"
      using w by (simp add: destroyed_at_def ws ws2)
    have a2: "attachments v ?d2 = attachments v d"
      unfolding attachments_def o2 by simp
    from res show ?thesis
    proof
      assume "snd (on_subitem_preload_finished w d) = ?d2"
      then show ?thesis using l2 d2 o2 a2 True nthr by simp
    next
      assume r: "snd (on_subitem_preload_finished w d) = snd (World_go w ?d2)"
      have "\<forall>e. occurrences e d \<le> occurrences e (snd (World_go w ?d2))"
      proof
        fix e
        have "occurrences e d \<le> occurrences e ?d2" using o2 [of e] by simp
        also have "\<dots> \<le> occurrences e (snd (World_go w ?d2))" using q by (simp add: quiet_def)
        finally show "occurrences e d \<le> occurrences e (snd (World_go w ?d2))" .
      qed
      then show ?thesis
        using q l2 d2 o2 a2 True nthr unfolding r quiet_def by simp
    qed
  qed
qed

lemma quiet_frame_step:
  assumes "worlds d v = Some x" "quiet v d d'"
  shows "frame_step v x False False False ok d d'"
proof -
  from assms obtain x' where x': "worlds d' v = Some x'" "loads x' = loads x"
    by (auto simp: quiet_def)
  show ?thesis
    unfolding frame_step_def
    using assms x'
    by (intro exI [of _ x'] exI [of _ 0]) (auto simp: quiet_def loads_def preloaded_def destroyed_at_def)
qed

lemma updated_check_frame_step:
  assumes x: "worlds d v = Some x" and w: "worlds d w = Some wd"
    and g: "has_preload_callback (g wd) = has_preload_callback wd"
      "destroyed (g wd) = destroyed wd"
      "lidar_preloaded (g wd) = (lidar_preloaded wd \<or> l)"
      "annotation_preloaded (g wd) = (annotation_preloaded wd \<or> a)"
      "egoPose_preloaded (g wd) = (egoPose_preloaded wd \<or> p)"
      "frameInfo_scene (g wd) = frameInfo_scene wd"
  shows "frame_step v x (w = v \<and> l) (w = v \<and> a) (w = v \<and> p)
           (fst (on_subitem_preload_finished w (update_world w g d)) = None) d
           (snd (on_subitem_preload_finished w (update_world w g d)))"
proof -
  let ?d0 = "update_world w g d"
  let ?d' = "snd (on_subitem_preload_finished w ?d0)"
  let ?n = "if v = w \<and> preloaded (g wd) then 1 else 0 :: nat"
  let ?m = "if v = w \<and> preloaded (g wd) \<and> has_preload_callback (g wd) \<and>
               \<not> transform_throws ?d0 (g wd) then 1 else 0 :: nat"
  have w0: "worlds ?d0 w = Some (g wd)" using w by simp
  note cf = check_frame [OF w0, of v]
  have v0: "worlds ?d0 v = (if v = w then Some (g wd) else Some x)" using x w by simp
  from cf v0 obtain x' where x': "worlds ?d' v = Some x'"
    "loads x' = (if v = w then loads (g wd) else loads x)" by (auto split: if_splits)
  have da: "destroyed_at ?d0 v = destroyed x"
    using x w g by (auto simp: destroyed_at_def)
  have dx: "destroyed_at ?d' v = destroyed x'"
    using x' by (simp add: destroyed_at_def)
  from cf have A: "\<forall>e. occurrences e d \<le> occurrences e ?d'" by simp
  from cf have B: "occurrences (CalcTransformMatrix v) ?d' =
      occurrences (CalcTransformMatrix v) d + ?n"
    by simp
  from cf have C: "occurrences (PreloadCallback v) ?d' = occurrences (PreloadCallback v) d + ?m"
    by simp
  have at0: "attachments v ?d0 = attachments v d" by (simp add: attachments_def)
  from cf da dx at0 have D: "destroyed x \<longrightarrow> destroyed x' \<and>
      attachments v ?d' = attachments v d"
    by simp
  have xs: "v = w \<Longrightarrow> x = wd" using x w by simp
  have M1: "?m \<le> ?n" by simp
  have M2: "\<not> has_preload_callback x \<longrightarrow> ?m = 0" using g(1) xs by auto
  have M3: "has_preload_callback x \<and> fst (on_subitem_preload_finished w ?d0) = None \<longrightarrow> ?m = ?n"
    using g(1) xs check_throws [OF w0] by auto
  show ?thesis
  proof (cases "v = w")
    case True
    then have xw: "x = wd" using x w by simp
    have l: "loads x' = loads (g wd)" using x' True by simp
    have N: "?n \<le> 1" "?n = 1 \<longrightarrow> preloaded x'" "\<not> preloaded x \<and> preloaded x' \<longrightarrow> ?n = 1"
      using l True by (simp_all add: loads_def preloaded_def)
    show ?thesis
      unfolding frame_step_def
      apply (rule exI [of _ x'], rule exI [of _ ?n], rule exI [of _ ?m])
      using A B C D M1 M2 M3 N x'(1) l g True xw
      by (simp add: loads_def)
  next
    case False
    have l: "loads x' = loads x" using x' False by simp
    have nw: "w \<noteq> v" using False by simp
    show ?thesis
      unfolding frame_step_def
      apply (rule exI [of _ x'], rule exI [of _ 0], rule exI [of _ 0])
      using A B C D x' l False nw
      by (simp add: loads_def preloaded_def)
  qed
qed

lemma update_world_id: "worlds d w = Some wd \<Longrightarrow> update_world w (\<lambda>x. x) d = d"
  by (simp add: update_world_def fun_upd_idem)

lemma check_frame_step:
  assumes x: "worlds d v = Some x"
  shows "frame_step v x False False False (fst (on_subitem_preload_finished w d) = None) d
           (snd (on_subitem_preload_finished w d))"
proof (cases "worlds d w")
  case None
  then have "snd (on_subitem_preload_finished w d) = d"
    by (simp add: on_subitem_preload_finished_def)
  then show ?thesis using quiet_frame_step [OF x quiet_refl] by simp
next
  case (Some wd)
  show ?thesis
    using updated_check_frame_step [OF x Some, of "\<lambda>x. x" False False False]
    by (simp add: update_world_id [OF Some])
qed

lemma deliver_frame_step:
  assumes x: "worlds d v = Some x"
  shows "frame_step v x (w = v \<and> ev = LidarPreloaded) (w = v \<and> ev = AnnotationPreloaded)
           (w = v \<and> (\<exists>r. ev = EgoPoseResponse r)) (fst (deliver w ev d) = None) d
           (snd (deliver w ev d))"
proof (cases "worlds d w")
  case None
  then have "snd (deliver w ev d) = d"
    by (cases ev) (simp_all add: deliver_def on_subitem_preload_finished_def update_world_def)
  moreover have "v \<noteq> w" using None x by auto
  ultimately show ?thesis
    using quiet_frame_step [OF x quiet_refl] by simp
next
  case (Some wd)
  show ?thesis
  proof (cases ev)
    case LidarPreloaded
    show ?thesis
      using updated_check_frame_step [OF x Some, of "\<lambda>x. x\<lparr>lidar_preloaded := True\<rparr>" True False False]
      by (simp add: deliver_def LidarPreloaded)
  next
    case AnnotationPreloaded
    show ?thesis
      using updated_check_frame_step [OF x Some, of "\<lambda>x. x\<lparr>annotation_preloaded := True\<rparr>" False True False]
      by (simp add: deliver_def AnnotationPreloaded)
  next
    case (EgoPoseResponse r)
    show ?thesis
      using updated_check_frame_step [OF x Some, of "\<lambda>x. x
               \<lparr>egoPose_egoPose := (case r of Some p \<Rightarrow> Some p | None \<Rightarrow> egoPose_egoPose x),
                egoPose_preloaded := True\<rparr>" False False True]
      by (simp add: deliver_def EgoPoseResponse)
  next
    case (ImageSettled cam)
    let ?g = "\<lambda>x. x\<lparr>cameras_loaded_flag := cam # cameras_loaded_flag x\<rparr>"
    have q: "quiet v d (update_world w ?g d)"
      using Some by (auto simp: quiet_def loads_def destroyed_at_def)
    show ?thesis
      using updated_check_frame_step [OF x Some, of ?g False False False]
        quiet_frame_step [OF x q] quiet_frame_step [OF x quiet_refl]
      by (simp add: deliver_def ImageSettled Some)
  qed
qed

lemma perform_frame_step:
  assumes x: "worlds d v = Some x"
  shows "frame_step v x (c = Deliver v LidarPreloaded) (c = Deliver v AnnotationPreloaded)
           (\<exists>r. c = Deliver v (EgoPoseResponse r)) (fst (perform c d) = None) d
           (snd (perform c d))"
proof (cases c)
  case (Deliver w ev)
  show ?thesis using deliver_frame_step [OF x, of w ev]
    by (simp add: perform_def Deliver)
next
  case (Check w)
  show ?thesis using check_frame_step [OF x, of w] by (simp add: perform_def Check)
next
  case (ActivateWorld w f dd)
  show ?thesis using quiet_frame_step [OF x activate_world_quiet [of v d w f dd]]
    by (simp add: perform_def ActivateWorld)
next
  case (Go w)
  show ?thesis using quiet_frame_step [OF x go_quiet [of v d w]] by (simp add: perform_def Go)
next
  case (Unload w)
  show ?thesis using quiet_frame_step [OF x unload_quiet [of v d w]] by (simp add: perform_def Unload)
next
  case (DeleteAll w)
  show ?thesis using quiet_frame_step [OF x deleteAll_quiet [of v d w]]
    by (simp add: perform_def DeleteAll)
next
  case (DeleteDistantWorlds w)
  show ?thesis using quiet_frame_step [OF x deleteDistantWorlds_quiet [of v d w]]
    by (simp add: perform_def DeleteDistantWorlds)
qed

lemmas eval_defs = example_entry_def example_data_def example_meta_def Data_init_def createWorld_def
  allocateOffset_def Offsets_init_def World_new_def EgoPose_preload_def andThen_def findIndex_def
  perform_def deliver_def update_world_def on_subitem_preload_finished_def preloaded_def
  calcTransformMatrix_def emit_def occurrences_def Images_loaded_def Let_def World_go_def
  World_unload_def World_activate_def activate_world_def call_destroy_old_world_def
  call_on_finished_def World_deleteAll_def getRefEgoPose_def inherited_def Object_prototype_names_def
  prototype_entry_def prototype_meta_def

lemma run_flags:
  "worlds d v = Some x \<Longrightarrow>
   \<exists>x'. worlds (run cs d) v = Some x' \<and>
     has_preload_callback x' = has_preload_callback x \<and>
     lidar_preloaded x' = (lidar_preloaded x \<or> Deliver v LidarPreloaded \<in> set cs) \<and>
     annotation_preloaded x' = (annotation_preloaded x \<or> Deliver v AnnotationPreloaded \<in> set cs) \<and>
     egoPose_preloaded x' = (egoPose_preloaded x \<or> (\<exists>r. Deliver v (EgoPoseResponse r) \<in> set cs))"
proof (induction cs arbitrary: d x)
  case Nil
  then show ?case by simp
next
  case (Cons c cs)
  from perform_frame_step [OF Cons.prems, of c]
  obtain x1 where x1: "worlds (snd (perform c d)) v = Some x1"
    "has_preload_callback x1 = has_preload_callback x"
    "lidar_preloaded x1 = (lidar_preloaded x \<or> c = Deliver v LidarPreloaded)"
    "annotation_preloaded x1 = (annotation_preloaded x \<or> c = Deliver v AnnotationPreloaded)"
    "egoPose_preloaded x1 = (egoPose_preloaded x \<or> (\<exists>r. c = Deliver v (EgoPoseResponse r)))"
    unfolding frame_step_def by blast
  from Cons.IH [OF x1(1)] obtain x' where x': "worlds (run cs (snd (perform c d))) v = Some x'"
    "has_preload_callback x' = has_preload_callback x1"
    "lidar_preloaded x' = (lidar_preloaded x1 \<or> Deliver v LidarPreloaded \<in> set cs)"
    "annotation_preloaded x' = (annotation_preloaded x1 \<or> Deliver v AnnotationPreloaded \<in> set cs)"
    "egoPose_preloaded x' = (egoPose_preloaded x1 \<or> (\<exists>r. Deliver v (EgoPoseResponse r) \<in> set cs))"
    by blast
  have l: "lidar_preloaded x' = (lidar_preloaded x \<or> Deliver v LidarPreloaded \<in> set (c # cs))"
    using x1(3) x'(3) by auto
  have a: "annotation_preloaded x' =
      (annotation_preloaded x \<or> Deliver v AnnotationPreloaded \<in> set (c # cs))"
    using x1(4) x'(4) by auto
  have p: "egoPose_preloaded x' =
      (egoPose_preloaded x \<or> (\<exists>r. Deliver v (EgoPoseResponse r) \<in> set (c # cs)))"
    using x1(5) x'(5) by auto
  have r: "run (c # cs) d = run cs (snd (perform c d))" by simp
  show ?case
    unfolding r using x'(1,2) x1(2) l a p by blast
qed

lemma run_destroyed:
  "worlds d v = Some x \<Longrightarrow> destroyed x \<Longrightarrow>
   (\<exists>x'. worlds (run cs d) v = Some x' \<and> destroyed x') \<and>
   attachments v (run cs d) = attachments v d"
proof (induction cs arbitrary: d x)
  case Nil
  then show ?case by simp
next
  case (Cons c cs)
  from perform_frame_step [OF Cons.prems(1), of c] Cons.prems(2)
  obtain x1 where x1: "worlds (snd (perform c d)) v = Some x1" "destroyed x1"
    "attachments v (snd (perform c d)) = attachments v d"
    unfolding frame_step_def by blast
  from Cons.IH [OF x1(1,2)] x1(3) show ?case by simp
qed

lemma run_grows:
  "worlds d v = Some x \<Longrightarrow> occurrences e d \<le> occurrences e (run cs d)"
proof (induction cs arbitrary: d x)
  case Nil
  then show ?case by simp
next
  case (Cons c cs)
  from perform_frame_step [OF Cons.prems(1), of c]
  obtain x1 where x1: "worlds (snd (perform c d)) v = Some x1"
    "occurrences e d \<le> occurrences e (snd (perform c d))"
    unfolding frame_step_def by blast
  from Cons.IH [OF x1(1)] x1(2) show ?case by simp
qed

lemma run_calc:
  "worlds d v = Some x \<Longrightarrow>
   \<exists>x'. worlds (run cs d) v = Some x' \<and>
     (\<not> preloaded x' \<longrightarrow>
        occurrences (CalcTransformMatrix v) (run cs d) = occurrences (CalcTransformMatrix v) d) \<and>
     (\<not> preloaded x \<and> preloaded x' \<longrightarrow>
        occurrences (CalcTransformMatrix v) d + 1 \<le> occurrences (CalcTransformMatrix v) (run cs d)) \<and>
     occurrences (PreloadCallback v) (run cs d) \<le>
       occurrences (PreloadCallback v) d +
       (occurrences (CalcTransformMatrix v) (run cs d) - occurrences (CalcTransformMatrix v) d) \<and>
     (\<not> has_preload_callback x \<longrightarrow>
        occurrences (PreloadCallback v) (run cs d) = occurrences (PreloadCallback v) d) \<and>
     (has_preload_callback x \<and> returns cs d \<longrightarrow>
        occurrences (PreloadCallback v) (run cs d) =
          occurrences (PreloadCallback v) d +
          (occurrences (CalcTransformMatrix v) (run cs d) - occurrences (CalcTransformMatrix v) d))"
proof (induction cs arbitrary: d x)
  case Nil
  then show ?case by simp
next
  case (Cons c cs)
  let ?d1 = "snd (perform c d)"
  let ?C = "CalcTransformMatrix v"
  let ?P = "PreloadCallback v"
  from perform_frame_step [OF Cons.prems, of c]
  obtain x1 n m where x1: "worlds ?d1 v = Some x1"
    and cb: "has_preload_callback x1 = has_preload_callback x"
    and n: "n \<le> (1::nat)" "n = 1 \<longrightarrow> preloaded x1" "\<not> preloaded x \<and> preloaded x1 \<longrightarrow> n = 1"
    and oc: "occurrences ?C ?d1 = occurrences ?C d + n"
    and op: "occurrences ?P ?d1 = occurrences ?P d + m"
    and m: "m \<le> n" "\<not> has_preload_callback x \<longrightarrow> m = 0"
      "has_preload_callback x \<and> fst (perform c d) = None \<longrightarrow> m = n"
    unfolding frame_step_def by blast
  from Cons.IH [OF x1] obtain x' where x': "worlds (run cs ?d1) v = Some x'"
    and i1: "\<not> preloaded x' \<longrightarrow> occurrences ?C (run cs ?d1) = occurrences ?C ?d1"
    and i2: "\<not> preloaded x1 \<and> preloaded x' \<longrightarrow> occurrences ?C ?d1 + 1 \<le> occurrences ?C (run cs ?d1)"
    and i3: "occurrences ?P (run cs ?d1) \<le>
       occurrences ?P ?d1 + (occurrences ?C (run cs ?d1) - occurrences ?C ?d1)"
    and i4: "\<not> has_preload_callback x1 \<longrightarrow> occurrences ?P (run cs ?d1) = occurrences ?P ?d1"
    and i5: "has_preload_callback x1 \<and> returns cs ?d1 \<longrightarrow>
       occurrences ?P (run cs ?d1) =
         occurrences ?P ?d1 + (occurrences ?C (run cs ?d1) - occurrences ?C ?d1)"
    by blast
  from run_flags [OF x1, of cs] x' have mono: "preloaded x1 \<longrightarrow> preloaded x'"
    by (auto simp: preloaded_def)
  have g: "occurrences ?C ?d1 \<le> occurrences ?C (run cs ?d1)" by (rule run_grows [OF x1])
  have r: "run (c # cs) d = run cs ?d1" by simp
  have rt: "returns (c # cs) d \<longleftrightarrow> fst (perform c d) = None \<and> returns cs ?d1" by simp
  have a1: "\<not> preloaded x' \<longrightarrow> occurrences ?C (run cs ?d1) = occurrences ?C d"
    using i1 mono n oc by auto
  have a2: "\<not> preloaded x \<and> preloaded x' \<longrightarrow> occurrences ?C d + 1 \<le> occurrences ?C (run cs ?d1)"
    using i2 n oc g by (cases "preloaded x1") auto
  have a3: "occurrences ?P (run cs ?d1) \<le>
       occurrences ?P d + (occurrences ?C (run cs ?d1) - occurrences ?C d)"
    using i3 op oc m(1) g by linarith
  have a4: "\<not> has_preload_callback x \<longrightarrow> occurrences ?P (run cs ?d1) = occurrences ?P d"
    using i4 op m(2) cb by auto
  have a5: "has_preload_callback x \<and> returns (c # cs) d \<longrightarrow>
       occurrences ?P (run cs ?d1) =
         occurrences ?P d + (occurrences ?C (run cs ?d1) - occurrences ?C d)"
    unfolding rt using i5 op oc m(3) cb g by auto
  show ?case unfolding r using x' a1 a2 a3 a4 a5 by blast
qed

section \<open>Preload aggregation and destruction\<close>

lemma deleteAll_attachments:
  "attachments u (snd (World_deleteAll w d)) = attachments u d"
  by (auto simp: World_deleteAll_def World_unload_def Let_def snd_andThen split: option.splits)

lemma deleteAll_destroys:
  assumes "worlds d v = Some x" "fst (World_deleteAll v d) = None"
  shows "\<exists>x1. worlds (snd (World_deleteAll v d)) v = Some x1 \<and> destroyed x1"
  using assms
  by (auto simp: World_deleteAll_def World_unload_def Let_def andThen_def
      split: option.splits if_splits prod.splits)

text \<open>
  C2, as amended. After any sequence of calls and completions, \<^verbatim>\<open>preloaded()\<close> of
  an entry is true exactly when the point-cloud loader, the annotation loader and
  the pose loader have each settled, before the sequence or by a completion in it.
  The image set is not consulted.
\<close>

theorem preloaded_iff_three_settled:
  assumes "worlds d v = Some x"
  shows "\<exists>x'. worlds (run cs d) v = Some x' \<and>
     preloaded x' =
       ((lidar_preloaded x \<or> Deliver v LidarPreloaded \<in> set cs) \<and>
        (annotation_preloaded x \<or> Deliver v AnnotationPreloaded \<in> set cs) \<and>
        (egoPose_preloaded x \<or> (\<exists>r. Deliver v (EgoPoseResponse r) \<in> set cs)))"
  using run_flags [OF assms, of cs] by (auto simp: preloaded_def)

lemma example_entry_world:
  "\<exists>x. worlds example_entry 0 = Some x \<and> \<not> lidar_preloaded x \<and> \<not> annotation_preloaded x \<and>
     \<not> egoPose_preloaded x \<and> \<not> everythingDone x \<and> has_preload_callback x"
  by (simp add: eval_defs)

theorem preloaded_iff_three_settled_witness:
  "map_option preloaded
     (worlds (run [Deliver 0 LidarPreloaded, Deliver 0 AnnotationPreloaded,
                   Deliver 0 (EgoPoseResponse None)] example_entry) 0) = Some True \<and>
   map_option preloaded
     (worlds (run [Deliver 0 LidarPreloaded, Deliver 0 (ImageSettled ''front''),
                   Deliver 0 (EgoPoseResponse None)] example_entry) 0) = Some False"
proof -
  from example_entry_world obtain x where x: "worlds example_entry 0 = Some x"
    "\<not> lidar_preloaded x" "\<not> annotation_preloaded x" "\<not> egoPose_preloaded x" by blast
  show ?thesis
    using preloaded_iff_three_settled [OF x(1), of "[Deliver 0 LidarPreloaded,
        Deliver 0 AnnotationPreloaded, Deliver 0 (EgoPoseResponse None)]"]
      preloaded_iff_three_settled [OF x(1), of "[Deliver 0 LidarPreloaded,
        Deliver 0 (ImageSettled ''front''), Deliver 0 (EgoPoseResponse None)]"] x(2-4)
    by auto
qed

text \<open>
  C2 as stated fails: with the point cloud, the annotation and the pose settled and
  the image of camera \<^verbatim>\<open>front\<close> still loading, \<^verbatim>\<open>preloaded()\<close> is true while
  \<^verbatim>\<open>cameras.loaded()\<close> is false.
\<close>

theorem preloaded_while_images_loading:
  "map_option preloaded
     (worlds (run [Deliver 0 LidarPreloaded, Deliver 0 AnnotationPreloaded,
                   Deliver 0 (EgoPoseResponse None)] example_entry) 0) = Some True \<and>
   map_option Images_loaded
     (worlds (run [Deliver 0 LidarPreloaded, Deliver 0 AnnotationPreloaded,
                   Deliver 0 (EgoPoseResponse None)] example_entry) 0) = Some False"
  by (simp add: eval_defs)

lemma prototype_entry_world:
  "\<exists>x. worlds prototype_entry 0 = Some x \<and> preloaded x \<and> has_preload_callback x \<and>
     transform_throws prototype_entry x"
  by (simp add: eval_defs transform_throws_def)

lemma prototype_entry_trace: "trace prototype_entry = [CalcTransformMatrix 0]"
  by (simp add: eval_defs)

lemma example_run_returns:
  "returns [Deliver 0 LidarPreloaded, Deliver 0 AnnotationPreloaded,
            Deliver 0 (EgoPoseResponse None)] example_entry"
  by (simp add: eval_defs)

text \<open>
  C1, as amended. One invocation of the check runs \<^verbatim>\<open>calcTransformMatrix\<close> once if
  \<^verbatim>\<open>preloaded()\<close> holds and not otherwise. It then runs the preload callback once, when
  one was given, unless the transform computation throws; then the check ends with
  the \<^verbatim>\<open>TypeError\<close> and the callback is skipped. The transform computation throws
  exactly for an entry with a pose of which the translation or the rotation cannot
  be read, whose scene has a stored reference pose without a readable translation,
  or whose scene has no stored reference pose and is named like a member of
  \<^verbatim>\<open>Object.prototype\<close>. Over any sequence of calls and completions: the transform
  computation has not run while \<^verbatim>\<open>preloaded()\<close> is still false and has run once
  \<^verbatim>\<open>preloaded()\<close> has become true; the callback never runs more often than the
  transform computation, never without having been given, and exactly as often when
  it was given and no call of the sequence threw.
\<close>

theorem check_runs_transform_when_preloaded:
  assumes "worlds d v = Some x"
  shows "occurrences (CalcTransformMatrix v) (snd (on_subitem_preload_finished v d)) =
           occurrences (CalcTransformMatrix v) d + (if preloaded x then 1 else 0) \<and>
         occurrences (PreloadCallback v) (snd (on_subitem_preload_finished v d)) =
           occurrences (PreloadCallback v) d +
             (if preloaded x \<and> has_preload_callback x \<and> fst (calcTransformMatrix v d) = None
              then 1 else 0) \<and>
         (preloaded x \<and> fst (calcTransformMatrix v d) \<noteq> None \<longrightarrow>
            fst (on_subitem_preload_finished v d) = Some TypeError) \<and>
         (fst (calcTransformMatrix v d) \<noteq> None) =
           (case egoPose_egoPose x of
              None \<Rightarrow> False
            | Some p \<Rightarrow>
                translation p = None \<or> rotation p = None \<or>
                (case refEgoPose d (frameInfo_scene x) of
                   None \<Rightarrow> inherited (frameInfo_scene x)
                 | Some f0 \<Rightarrow> translation f0 = None)) \<and>
         (\<exists>x'. worlds (run cs d) v = Some x' \<and>
            (\<not> preloaded x' \<longrightarrow>
               occurrences (CalcTransformMatrix v) (run cs d) =
                 occurrences (CalcTransformMatrix v) d) \<and>
            (\<not> preloaded x \<and> preloaded x' \<longrightarrow>
               occurrences (CalcTransformMatrix v) d + 1 \<le>
                 occurrences (CalcTransformMatrix v) (run cs d)) \<and>
            occurrences (PreloadCallback v) (run cs d) \<le>
              occurrences (PreloadCallback v) d +
              (occurrences (CalcTransformMatrix v) (run cs d) -
               occurrences (CalcTransformMatrix v) d) \<and>
            (\<not> has_preload_callback x \<longrightarrow>
               occurrences (PreloadCallback v) (run cs d) = occurrences (PreloadCallback v) d) \<and>
            (has_preload_callback x \<and> returns cs d \<longrightarrow>
               occurrences (PreloadCallback v) (run cs d) =
                 occurrences (PreloadCallback v) d +
                 (occurrences (CalcTransformMatrix v) (run cs d) -
                  occurrences (CalcTransformMatrix v) d)))"
proof -
  note cf = check_frame [OF assms, of v]
  have t: "(fst (calcTransformMatrix v d) = None) = (\<not> transform_throws d x)"
    using calc_fst [OF assms] by simp
  from cf have c1: "occurrences (CalcTransformMatrix v) (snd (on_subitem_preload_finished v d)) =
           occurrences (CalcTransformMatrix v) d + (if preloaded x then 1 else 0)" by simp
  from cf have c2: "occurrences (PreloadCallback v) (snd (on_subitem_preload_finished v d)) =
           occurrences (PreloadCallback v) d +
             (if preloaded x \<and> has_preload_callback x \<and> fst (calcTransformMatrix v d) = None
              then 1 else 0)"
    unfolding t by simp
  have c3: "preloaded x \<and> fst (calcTransformMatrix v d) \<noteq> None \<longrightarrow>
            fst (on_subitem_preload_finished v d) = Some TypeError"
    using check_throws [OF assms] t by simp
  have c4: "(fst (calcTransformMatrix v d) \<noteq> None) =
           (case egoPose_egoPose x of
              None \<Rightarrow> False
            | Some p \<Rightarrow>
                translation p = None \<or> rotation p = None \<or>
                (case refEgoPose d (frameInfo_scene x) of
                   None \<Rightarrow> inherited (frameInfo_scene x)
                 | Some f0 \<Rightarrow> translation f0 = None))"
    using t by (simp add: transform_throws_def)
  show ?thesis using c1 c2 c3 c4 run_calc [OF assms, of cs] by blast
qed

theorem check_runs_transform_witness:
  "occurrences (CalcTransformMatrix 0) (snd (on_subitem_preload_finished 0 example_entry)) = 0 \<and>
   occurrences (CalcTransformMatrix 0)
     (run [Deliver 0 LidarPreloaded, Deliver 0 (ImageSettled ''front'')] example_entry) = 0 \<and>
   occurrences (PreloadCallback 0)
     (run [Deliver 0 LidarPreloaded, Deliver 0 AnnotationPreloaded,
           Deliver 0 (EgoPoseResponse None)] example_entry) =
   occurrences (CalcTransformMatrix 0)
     (run [Deliver 0 LidarPreloaded, Deliver 0 AnnotationPreloaded,
           Deliver 0 (EgoPoseResponse None)] example_entry) \<and>
   1 \<le> occurrences (CalcTransformMatrix 0)
     (run [Deliver 0 LidarPreloaded, Deliver 0 AnnotationPreloaded,
           Deliver 0 (EgoPoseResponse None)] example_entry) \<and>
   fst (on_subitem_preload_finished 0 prototype_entry) = Some TypeError \<and>
   occurrences (CalcTransformMatrix 0) (snd (on_subitem_preload_finished 0 prototype_entry)) = 2 \<and>
   occurrences (PreloadCallback 0) (snd (on_subitem_preload_finished 0 prototype_entry)) = 0"
proof -
  let ?cs1 = "[Deliver 0 LidarPreloaded, Deliver 0 (ImageSettled ''front'')]"
  let ?cs2 = "[Deliver 0 LidarPreloaded, Deliver 0 AnnotationPreloaded,
           Deliver 0 (EgoPoseResponse None)]"
  from example_entry_world obtain x where x: "worlds example_entry 0 = Some x"
    "\<not> lidar_preloaded x" "\<not> annotation_preloaded x" "\<not> egoPose_preloaded x"
    "has_preload_callback x" by blast
  have t0: "trace example_entry = []" by (simp add: eval_defs)
  have z: "\<And>e. occurrences e example_entry = 0" by (simp add: occurrences_def t0)
  have np: "\<not> preloaded x" using x by (simp add: preloaded_def)
  from run_flags [OF x(1), of ?cs1] x(2-4)
  obtain x1 where x1: "worlds (run ?cs1 example_entry) 0 = Some x1" "\<not> preloaded x1"
    by (auto simp: preloaded_def)
  from run_flags [OF x(1), of ?cs2] x(2-4)
  obtain x2 where x2: "worlds (run ?cs2 example_entry) 0 = Some x2" "preloaded x2"
    by (auto simp: preloaded_def)
  have e: "occurrences (CalcTransformMatrix 0) (snd (on_subitem_preload_finished 0 example_entry)) = 0 \<and>
     occurrences (CalcTransformMatrix 0) (run ?cs1 example_entry) = 0 \<and>
     occurrences (PreloadCallback 0) (run ?cs2 example_entry) =
       occurrences (CalcTransformMatrix 0) (run ?cs2 example_entry) \<and>
     1 \<le> occurrences (CalcTransformMatrix 0) (run ?cs2 example_entry)"
    using check_runs_transform_when_preloaded [OF x(1), of ?cs1]
      check_runs_transform_when_preloaded [OF x(1), of ?cs2] x1 x2 np x(5) z example_run_returns
    by auto
  from prototype_entry_world obtain y where y: "worlds prototype_entry 0 = Some y"
    "preloaded y" "has_preload_callback y" "transform_throws prototype_entry y" by blast
  have o: "occurrences (CalcTransformMatrix 0) prototype_entry = 1"
    "occurrences (PreloadCallback 0) prototype_entry = 0"
    by (simp_all add: occurrences_def prototype_entry_trace)
  have f: "fst (calcTransformMatrix 0 prototype_entry) \<noteq> None"
    using calc_fst [OF y(1)] y(4) by simp
  have t: "fst (on_subitem_preload_finished 0 prototype_entry) = Some TypeError \<and>
     occurrences (CalcTransformMatrix 0) (snd (on_subitem_preload_finished 0 prototype_entry)) = 2 \<and>
     occurrences (PreloadCallback 0) (snd (on_subitem_preload_finished 0 prototype_entry)) = 0"
    using check_runs_transform_when_preloaded [OF y(1), of "[]"] y(2,3) f o by simp
  show ?thesis using e t by blast
qed

text \<open>
  C1 as stated fails: the image set settling after the other three sub-loads invokes
  the check again, and the transform computation and the callback run a second
  time; invoking the check once more runs them a third time.
\<close>

theorem transform_and_callback_run_again:
  "occurrences (CalcTransformMatrix 0)
     (run [Deliver 0 LidarPreloaded, Deliver 0 AnnotationPreloaded, Deliver 0 (EgoPoseResponse None),
           Deliver 0 (ImageSettled ''front'')] example_entry) = 2 \<and>
   occurrences (PreloadCallback 0)
     (run [Deliver 0 LidarPreloaded, Deliver 0 AnnotationPreloaded, Deliver 0 (EgoPoseResponse None),
           Deliver 0 (ImageSettled ''front'')] example_entry) = 2 \<and>
   occurrences (CalcTransformMatrix 0)
     (run [Deliver 0 LidarPreloaded, Deliver 0 AnnotationPreloaded, Deliver 0 (EgoPoseResponse None),
           Deliver 0 (ImageSettled ''front''), Check 0] example_entry) = 3"
  by (simp add: eval_defs)

text \<open>
  C4 (destroyed wins). When \<^verbatim>\<open>deleteAll()\<close> has returned for an entry, the entry stays
  destroyed and is never attached to a render space, over every later sequence of
  sub-load completions, activations and calls of \<^verbatim>\<open>go()\<close>: there is no
  \<^verbatim>\<open>scene.add\<close>, \<^verbatim>\<open>lidar.go\<close> or \<^verbatim>\<open>annotation.go\<close> for it. \<^verbatim>\<open>deleteAll()\<close> returns
  for every entry that is not attached, so for every entry whose sub-loads are
  outstanding.
\<close>

theorem destroyed_entry_never_attaches:
  assumes "worlds d v = Some x" and "fst (World_deleteAll v d) = None"
  shows "(\<exists>x'. worlds (run cs (snd (World_deleteAll v d))) v = Some x' \<and> destroyed x') \<and>
         attachments v (run cs (snd (World_deleteAll v d))) = attachments v d"
proof -
  from deleteAll_destroys [OF assms] obtain x1
    where x1: "worlds (snd (World_deleteAll v d)) v = Some x1" "destroyed x1" by blast
  from run_destroyed [OF x1, of cs] deleteAll_attachments [of v v d]
  show ?thesis by simp
qed

theorem destroyed_entry_never_attaches_witness:
  "fst (World_deleteAll 0 example_entry) = None \<and>
   attachments 0
     (run [Deliver 0 LidarPreloaded, Deliver 0 AnnotationPreloaded, Deliver 0 (EgoPoseResponse None),
           Deliver 0 (ImageSettled ''front''), ActivateWorld 0 True False, Go 0]
        (snd (World_deleteAll 0 example_entry))) = 0"
proof -
  from example_entry_world obtain x where x: "worlds example_entry 0 = Some x"
    "\<not> everythingDone x" by blast
  have f: "fst (World_deleteAll 0 example_entry) = None"
    using x by (simp add: World_deleteAll_def andThen_def)
  have t0: "trace example_entry = []" by (simp add: eval_defs)
  have z: "attachments 0 example_entry = 0" by (simp add: attachments_def occurrences_def t0)
  show ?thesis
    using destroyed_entry_never_attaches [OF x(1) f, of "[Deliver 0 LidarPreloaded,
      Deliver 0 AnnotationPreloaded, Deliver 0 (EgoPoseResponse None),
      Deliver 0 (ImageSettled ''front''), ActivateWorld 0 True False, Go 0]"] f z
    by (simp del: run.simps)
qed

section \<open>Eviction of distant entries\<close>

lemma long_meta_index:
  "findIndex (map int [0..<100]) 0 = 0" "findIndex (map int [0..<100]) 90 = 90"
  by code_simp+

lemmas eval2_defs = two_entries_def long_data_def long_meta_def Data_init_def createWorld_def
  allocateOffset_def Offsets_init_def World_new_def EgoPose_preload_def andThen_def long_meta_index
  perform_def deliver_def update_world_def on_subitem_preload_finished_def preloaded_def
  calcTransformMatrix_def emit_def occurrences_def Images_loaded_def Let_def World_go_def
  World_unload_def World_activate_def activate_world_def call_destroy_old_world_def
  call_on_finished_def World_deleteAll_def getRefEgoPose_def includes_array_def
  inherited_def Object_prototype_names_def

lemma two_entries_eval:
  "worldList two_entries = [0, 1] \<and>
   map_option (\<lambda>x. (frameInfo_frame_index x, everythingDone x, annotation_modified x,
                    destroyed x, offsetIndex x)) (worlds two_entries 0) =
     Some (0, True, False, False, (2, (0, 0, 0))) \<and>
   map_option frameInfo_frame_index (worlds two_entries 1) = Some 90 \<and>
   MaxWorldNumber two_entries = 80"
  by (simp add: eval2_defs)

text \<open>
  C6 (eviction removes the entry). The claim fails on the code by a slip. Entry 0 is
  81 or more frames from the current entry 1, attached (\<^verbatim>\<open>everythingDone\<close>) and
  unmodified. \<^verbatim>\<open>deleteDistantWorlds\<close> returns its offset and calls
  \<^verbatim>\<open>deleteAll()\<close>, which unloads it and so clears \<^verbatim>\<open>everythingDone\<close>; the final
  filter evaluates \<^verbatim>\<open>removable\<close> again, now false, and keeps the destroyed entry in
  \<^verbatim>\<open>worldList\<close>.
\<close>

theorem deleteDistantWorlds_keeps_destroyed_entry_listed:
  "fst (deleteDistantWorlds 1 two_entries) = None \<and>
   worldList (snd (deleteDistantWorlds 1 two_entries)) = [0, 1] \<and>
   map_option destroyed (worlds (snd (deleteDistantWorlds 1 two_entries)) 0) = Some True \<and>
   last (offsetList (offsets (snd (deleteDistantWorlds 1 two_entries)))) = (2, (0, 0, 0))"
  by (simp add: eval2_defs deleteDistantWorlds_def removable_def evict_def returnOffset_def)

lemma removals_emit [simp]:
  "removals v (emit e d) = removals v d +
     (if e = LidarUnload v \<or> e = AnnotationUnload v \<or> e = SceneRemove v \<or>
         e = LidarDeleteAll v \<or> e = AnnotationDeleteAll v then 1 else 0)"
  by (auto simp: removals_def)

lemma removals_update_world [simp]: "removals v (update_world w f d) = removals v d"
  by (simp add: removals_def)

lemma unload_other:
  "v \<noteq> w \<Longrightarrow> worlds (snd (World_unload w d)) v = worlds d v \<and>
     removals v (snd (World_unload w d)) = removals v d"
  by (auto simp: World_unload_def Let_def split: option.splits)

lemma unload_static:
  "worldList (snd (World_unload w d)) = worldList d \<and>
   MaxWorldNumber (snd (World_unload w d)) = MaxWorldNumber d \<and>
   offsets (snd (World_unload w d)) = offsets d \<and>
   map_option offsetIndex (worlds (snd (World_unload w d)) v) = map_option offsetIndex (worlds d v)"
  by (auto simp: World_unload_def Let_def split: option.splits)

lemma unload_undone: "undone d v \<Longrightarrow> undone (snd (World_unload w d)) v"
  by (auto simp: undone_def World_unload_def Let_def split: option.splits if_splits)

lemma unload_done: "fst (World_unload w d) = None \<Longrightarrow> undone (snd (World_unload w d)) w"
  by (auto simp: undone_def World_unload_def Let_def split: option.splits if_splits)

lemma deleteAll_other:
  "v \<noteq> w \<Longrightarrow> worlds (snd (World_deleteAll w d)) v = worlds d v \<and>
     removals v (snd (World_deleteAll w d)) = removals v d"
  using unload_other [of v w d]
  by (auto simp: World_deleteAll_def Let_def snd_andThen split: option.splits)

lemma deleteAll_static:
  "worldList (snd (World_deleteAll w d)) = worldList d \<and>
   MaxWorldNumber (snd (World_deleteAll w d)) = MaxWorldNumber d \<and>
   offsets (snd (World_deleteAll w d)) = offsets d \<and>
   map_option offsetIndex (worlds (snd (World_deleteAll w d)) v) = map_option offsetIndex (worlds d v)"
  using unload_static [of w d v]
  by (auto simp: World_deleteAll_def Let_def snd_andThen split: option.splits)

lemma mark_destroyed_undone:
  "undone d1 v \<Longrightarrow>
   undone (update_world w (\<lambda>x. x\<lparr>destroyed := True\<rparr>)
            (emit (AnnotationDeleteAll w) (emit (LidarDeleteAll w) d1))) v"
  by (auto simp: undone_def split: option.splits)

lemma deleteAll_undone: "undone d v \<Longrightarrow> undone (snd (World_deleteAll w d)) v"
proof (cases "worlds d w")
  case None
  assume "undone d v"
  with None show ?thesis by (simp add: World_deleteAll_def)
next
  case (Some wd)
  assume u: "undone d v"
  let ?d1 = "snd (if everythingDone wd then World_unload w d else (None, d))"
  have u1: "undone ?d1 v" using u by (simp add: unload_undone)
  show ?thesis
    using Some u1 mark_destroyed_undone [OF u1, of w]
    by (auto simp: World_deleteAll_def Let_def snd_andThen split: option.splits)
qed

lemma deleteAll_done:
  "fst (World_deleteAll w d) = None \<Longrightarrow> undone (snd (World_deleteAll w d)) w"
proof (cases "worlds d w")
  case None
  assume "fst (World_deleteAll w d) = None"
  with None show ?thesis by (simp add: World_deleteAll_def)
next
  case (Some wd)
  assume f: "fst (World_deleteAll w d) = None"
  let ?r = "if everythingDone wd then World_unload w d else (None, d)"
  have f1: "fst ?r = None"
    using f Some by (auto simp: World_deleteAll_def andThen_def split: prod.splits option.splits)
  have u1: "undone (snd ?r) w"
    using f1 Some unload_done [of w d] by (auto simp: undone_def)
  show ?thesis
    using Some u1 mark_destroyed_undone [OF u1, of w]
    by (auto simp: World_deleteAll_def Let_def snd_andThen split: option.splits)
qed

lemma evict_other:
  "v \<noteq> w \<Longrightarrow> worlds (snd (evict w d)) v = worlds d v \<and>
     removals v (snd (evict w d)) = removals v d"
proof (cases "worlds d w")
  case None
  then show ?thesis by (simp add: evict_def)
next
  case (Some wd)
  assume "v \<noteq> w"
  then show ?thesis
    using Some deleteAll_other [of v w "d\<lparr>offsets := returnOffset (offsetIndex wd) (offsets d)\<rparr>"]
    by (simp add: evict_def removals_def occurrences_def)
qed

lemma evict_static:
  "worldList (snd (evict w d)) = worldList d \<and>
   MaxWorldNumber (snd (evict w d)) = MaxWorldNumber d \<and>
   offsetList (offsets (snd (evict w d))) = offsetList (offsets d) @ returned d [w] \<and>
   map_option offsetIndex (worlds (snd (evict w d)) v) = map_option offsetIndex (worlds d v)"
proof (cases "worlds d w")
  case None
  then show ?thesis by (simp add: evict_def returned_def)
next
  case (Some wd)
  then show ?thesis
    using deleteAll_static [of w "d\<lparr>offsets := returnOffset (offsetIndex wd) (offsets d)\<rparr>" v]
    by (simp add: evict_def returned_def returnOffset_def)
qed

lemma evict_undone: "undone d v \<Longrightarrow> undone (snd (evict w d)) v"
proof (cases "worlds d w")
  case None
  assume "undone d v"
  with None show ?thesis by (simp add: evict_def)
next
  case (Some wd)
  assume u: "undone d v"
  have "undone (d\<lparr>offsets := returnOffset (offsetIndex wd) (offsets d)\<rparr>) v"
    using u by (simp add: undone_def)
  then show ?thesis using Some by (simp add: evict_def deleteAll_undone)
qed

lemma evict_done: "fst (evict w d) = None \<Longrightarrow> undone (snd (evict w d)) w"
proof (cases "worlds d w")
  case None
  assume "fst (evict w d) = None"
  with None show ?thesis by (simp add: evict_def)
next
  case (Some wd)
  assume "fst (evict w d) = None"
  then show ?thesis using Some by (simp add: evict_def deleteAll_done)
qed

lemma returned_append: "returned d (us @ vs) = returned d us @ returned d vs"
  by (simp add: returned_def)

lemma returned_cong:
  "(\<And>u. map_option offsetIndex (worlds d1 u) = map_option offsetIndex (worlds d u)) \<Longrightarrow>
   returned d1 us = returned d us"
proof -
  assume a: "\<And>u. map_option offsetIndex (worlds d1 u) = map_option offsetIndex (worlds d u)"
  have "\<And>u. (case worlds d1 u of None \<Rightarrow> [] | Some y \<Rightarrow> [offsetIndex y]) =
             (case worlds d u of None \<Rightarrow> [] | Some y \<Rightarrow> [offsetIndex y])"
  proof -
    fix u
    show "(case worlds d1 u of None \<Rightarrow> [] | Some y \<Rightarrow> [offsetIndex y]) =
          (case worlds d u of None \<Rightarrow> [] | Some y \<Rightarrow> [offsetIndex y])"
      using a [of u] by (cases "worlds d1 u"; cases "worlds d u") simp_all
  qed
  then show ?thesis by (simp add: returned_def)
qed

lemma forEach_evict_frame:
  "worldList (snd (forEach evict ws d)) = worldList d \<and>
   MaxWorldNumber (snd (forEach evict ws d)) = MaxWorldNumber d \<and>
   (\<forall>v. map_option offsetIndex (worlds (snd (forEach evict ws d)) v) =
        map_option offsetIndex (worlds d v)) \<and>
   (\<forall>v. v \<notin> set ws \<longrightarrow> worlds (snd (forEach evict ws d)) v = worlds d v \<and>
        removals v (snd (forEach evict ws d)) = removals v d) \<and>
   (\<exists>us. set us \<subseteq> set ws \<and>
      offsetList (offsets (snd (forEach evict ws d))) = offsetList (offsets d) @ returned d us)"
proof (induction ws arbitrary: d)
  case Nil
  show ?case by (simp add: returned_def)
next
  case (Cons w ws)
  let ?d1 = "snd (evict w d)"
  note st = evict_static [of w d]
  show ?case
  proof (cases "fst (evict w d)")
    case (Some e)
    then have r: "snd (forEach evict (w # ws) d) = ?d1" by (simp add: snd_andThen)
    have "set [w] \<subseteq> set (w # ws) \<and>
        offsetList (offsets ?d1) = offsetList (offsets d) @ returned d [w]"
      using st by simp
    then have ex: "\<exists>us. set us \<subseteq> set (w # ws) \<and>
        offsetList (offsets ?d1) = offsetList (offsets d) @ returned d us" by blast
    show ?thesis unfolding r using st evict_other [of _ w d] ex by auto
  next
    case None
    then have r: "snd (forEach evict (w # ws) d) = snd (forEach evict ws ?d1)"
      by (simp add: snd_andThen)
    note ih = Cons.IH [of ?d1]
    from ih obtain us where us: "set us \<subseteq> set ws"
      "offsetList (offsets (snd (forEach evict ws ?d1))) = offsetList (offsets ?d1) @ returned ?d1 us"
      by blast
    have oi: "\<And>u. map_option offsetIndex (worlds ?d1 u) = map_option offsetIndex (worlds d u)"
      using evict_static [of w d] by simp
    have "returned ?d1 us = returned d us" by (rule returned_cong [OF oi])
    then have "set (w # us) \<subseteq> set (w # ws) \<and>
        offsetList (offsets (snd (forEach evict ws ?d1))) = offsetList (offsets d) @ returned d (w # us)"
      using us st returned_append [of d "[w]" us] by auto
    then have ex: "\<exists>us. set us \<subseteq> set (w # ws) \<and>
        offsetList (offsets (snd (forEach evict ws ?d1))) = offsetList (offsets d) @ returned d us"
      by blast
    show ?thesis unfolding r using ih st evict_other [of _ w d] ex by auto
  qed
qed

lemma forEach_evict_worldList: "worldList (snd (forEach evict ws d)) = worldList d"
  using forEach_evict_frame [of ws d] by blast

lemma forEach_evict_MaxWorldNumber:
  "MaxWorldNumber (snd (forEach evict ws d)) = MaxWorldNumber d"
  using forEach_evict_frame [of ws d] by blast

lemma forEach_evict_other:
  "v \<notin> set ws \<Longrightarrow> worlds (snd (forEach evict ws d)) v = worlds d v"
  using forEach_evict_frame [of ws d] by blast

lemma forEach_evict_removals:
  "v \<notin> set ws \<Longrightarrow> removals v (snd (forEach evict ws d)) = removals v d"
  using forEach_evict_frame [of ws d] by blast

lemma forEach_evict_offsets:
  "\<exists>us. set us \<subseteq> set ws \<and>
     offsetList (offsets (snd (forEach evict ws d))) = offsetList (offsets d) @ returned d us"
  using forEach_evict_frame [of ws d] by blast

lemma forEach_evict_undone: "undone d v \<Longrightarrow> undone (snd (forEach evict ws d)) v"
proof (induction ws arbitrary: d)
  case Nil
  then show ?case by simp
next
  case (Cons w ws)
  from Cons.IH [OF evict_undone [OF Cons.prems, of w]] evict_undone [OF Cons.prems, of w]
  show ?case by (simp add: snd_andThen split: option.splits)
qed

lemma forEach_evict_done:
  "fst (forEach evict ws d) = None \<Longrightarrow> v \<in> set ws \<Longrightarrow> undone (snd (forEach evict ws d)) v"
proof (induction ws arbitrary: d)
  case Nil
  then show ?case by simp
next
  case (Cons w ws)
  from Cons.prems(1) have f1: "fst (evict w d) = None"
    by (auto simp: andThen_def split: prod.splits option.splits)
  then have r: "forEach evict (w # ws) d = forEach evict ws (snd (evict w d))"
    by (auto simp: andThen_def split: prod.splits option.splits)
  show ?case
  proof (cases "v \<in> set ws")
    case True
    with Cons.IH [of "snd (evict w d)"] Cons.prems(1) show ?thesis unfolding r by simp
  next
    case False
    with Cons.prems(2) have "v = w" by simp
    then show ?thesis unfolding r using evict_done [OF f1] forEach_evict_undone by simp
  qed
qed

lemma removable_isSafe: "removable d i u \<Longrightarrow> isSafe d u"
  by (auto simp: removable_def isSafe_def Let_def split: option.splits)

lemma removable_undone: "undone d u \<Longrightarrow> \<not> removable d i u"
  by (auto simp: removable_def undone_def Let_def split: option.splits)

lemma removable_cong:
  "worlds d1 u = worlds d u \<Longrightarrow> MaxWorldNumber d1 = MaxWorldNumber d \<Longrightarrow>
   removable d1 i u = removable d i u"
  by (auto simp: removable_def Let_def split: option.splits)

lemma deleteDistantWorlds_worldList:
  "worldList (snd (deleteDistantWorlds cw d)) = worldList d"
proof (cases "worlds d cw")
  case None
  then show ?thesis by (simp add: deleteDistantWorlds_def)
next
  case (Some c)
  let ?i = "frameInfo_frame_index c"
  let ?ws = "filter (removable d ?i) (worldList d)"
  let ?r = "forEach evict ?ws d"
  let ?d1 = "snd ?r"
  show ?thesis
  proof (cases "fst ?r")
    case (Some e)
    then show ?thesis
      using \<open>worlds d cw = Some c\<close>
      by (simp add: deleteDistantWorlds_def Let_def snd_andThen forEach_evict_worldList)
  next
    case None
    have keep: "\<And>u. u \<in> set (worldList d) \<Longrightarrow> \<not> removable ?d1 ?i u"
    proof -
      fix u
      assume u: "u \<in> set (worldList d)"
      show "\<not> removable ?d1 ?i u"
      proof (cases "u \<in> set ?ws")
        case True
        from forEach_evict_done [OF None True] show ?thesis by (rule removable_undone)
      next
        case False
        with u have nr: "\<not> removable d ?i u" by simp
        have "removable ?d1 ?i u = removable d ?i u"
          by (rule removable_cong [OF forEach_evict_other [OF False] forEach_evict_MaxWorldNumber])
        then show ?thesis using nr by simp
      qed
    qed
    have "filter (\<lambda>u. \<not> removable ?d1 ?i u) (worldList d) = worldList d"
      using keep by (simp add: filter_id_conv)
    then show ?thesis
      using \<open>worlds d cw = Some c\<close> None
      by (simp add: deleteDistantWorlds_def Let_def snd_andThen forEach_evict_worldList)
  qed
qed

text \<open>
  C5 (eviction safety). An entry that is not \<^verbatim>\<open>everythingDone\<close> or whose annotation
  is modified is left as it is by \<^verbatim>\<open>deleteDistantWorlds\<close>, whatever its frame index:
  its state is unchanged (not destroyed, not unloaded), nothing of it is detached or
  released, it stays in \<^verbatim>\<open>worldList\<close>, and the offsets pushed to the pool are those
  of entries that are safe.
\<close>

theorem deleteDistantWorlds_spares_unsafe:
  assumes "worlds d w = Some x" and "\<not> everythingDone x \<or> annotation_modified x"
  shows "worlds (snd (deleteDistantWorlds cw d)) w = Some x \<and>
         removals w (snd (deleteDistantWorlds cw d)) = removals w d \<and>
         (w \<in> set (worldList (snd (deleteDistantWorlds cw d))) \<longleftrightarrow> w \<in> set (worldList d)) \<and>
         (\<exists>us. list_all (isSafe d) us \<and>
            offsetList (offsets (snd (deleteDistantWorlds cw d))) =
              offsetList (offsets d) @ returned d us)"
proof (cases "worlds d cw")
  case None
  have "list_all (isSafe d) [] \<and> offsetList (offsets d) = offsetList (offsets d) @ returned d []"
    by (simp add: returned_def)
  then have "\<exists>us. list_all (isSafe d) us \<and> offsetList (offsets d) = offsetList (offsets d) @ returned d us"
    by blast
  then show ?thesis using None assms by (simp add: deleteDistantWorlds_def)
next
  case (Some c)
  let ?i = "frameInfo_frame_index c"
  let ?ws = "filter (removable d ?i) (worldList d)"
  let ?d1 = "snd (forEach evict ?ws d)"
  have nr: "\<not> removable d ?i w"
    using assms by (auto simp: removable_def Let_def)
  then have nw: "w \<notin> set ?ws" by simp
  have w1: "worlds ?d1 w = Some x" "removals w ?d1 = removals w d"
    using assms(1) forEach_evict_other [OF nw] forEach_evict_removals [OF nw] by simp_all
  from forEach_evict_offsets [of ?ws d] obtain us where us: "set us \<subseteq> set ?ws"
    "offsetList (offsets ?d1) = offsetList (offsets d) @ returned d us" by blast
  have "list_all (isSafe d) us"
    using us(1) removable_isSafe [of d ?i] by (auto simp: list_all_iff)
  with us(2) have ex: "\<exists>us. list_all (isSafe d) us \<and>
      offsetList (offsets ?d1) = offsetList (offsets d) @ returned d us" by blast
  have res: "snd (deleteDistantWorlds cw d) = ?d1 \<or>
             (\<exists>l. snd (deleteDistantWorlds cw d) = ?d1\<lparr>worldList := l\<rparr>)"
    using Some by (auto simp: deleteDistantWorlds_def Let_def snd_andThen split: option.splits)
  have wl: "worldList (snd (deleteDistantWorlds cw d)) = worldList d"
    by (rule deleteDistantWorlds_worldList)
  from res show ?thesis
  proof
    assume "snd (deleteDistantWorlds cw d) = ?d1"
    then show ?thesis using w1 ex wl by simp
  next
    assume "\<exists>l. snd (deleteDistantWorlds cw d) = ?d1\<lparr>worldList := l\<rparr>"
    then obtain l where l: "snd (deleteDistantWorlds cw d) = ?d1\<lparr>worldList := l\<rparr>" by blast
    have "removals w (?d1\<lparr>worldList := l\<rparr>) = removals w ?d1"
      by (simp add: removals_def occurrences_def)
    then show ?thesis using w1 ex wl unfolding l by simp
  qed
qed

lemma two_entries_second:
  "\<exists>x. worlds two_entries 1 = Some x \<and> \<not> everythingDone x \<and> \<not> destroyed x \<and>
     frameInfo_frame_index x = 90"
  by (simp add: eval2_defs)

theorem deleteDistantWorlds_spares_unsafe_witness:
  "map_option destroyed (worlds (snd (deleteDistantWorlds 0 two_entries)) 1) = Some False \<and>
   1 \<in> set (worldList (snd (deleteDistantWorlds 0 two_entries)))"
proof -
  from two_entries_second obtain x where x: "worlds two_entries 1 = Some x"
    "\<not> everythingDone x" "\<not> destroyed x" by blast
  have l: "worldList two_entries = [0, 1]" using two_entries_eval by simp
  from x(2) have h: "\<not> everythingDone x \<or> annotation_modified x" by simp
  show ?thesis
    using deleteDistantWorlds_spares_unsafe [OF x(1) h, of 0] x(3) l by simp
qed

section \<open>Switching the active entry\<close>









section \<open>Coordinate transforms\<close>

lemma multiply_identity_right: "multiplyMatrices m Matrix4_identity = m"
  by (cases m) (simp add: multiplyMatrices_def Matrix4_identity_def)

lemma offset_times_pose:
  "multiplyMatrices (setPosition Matrix4_identity (ox, oy, oz))
     (setPosition (makeRotationFromQuaternion q) (tx, ty, tz)) =
   setPosition (makeRotationFromQuaternion q) (ox + tx, oy + ty, oz + tz)"
  by (simp add: multiplyMatrices_def setPosition_def Matrix4_identity_def
      makeRotationFromQuaternion_def Let_def)

lemma affine_offset: "affine (setPosition Matrix4_identity t)"
  by (cases t) (simp add: affine_def setPosition_def Matrix4_identity_def)

lemma affine_pose: "affine (setPosition (makeRotationFromQuaternion q) t)"
  by (cases t) (simp add: affine_def setPosition_def makeRotationFromQuaternion_def Let_def)

lemma determinant_offset: "determinant (setPosition Matrix4_identity t) = 1"
  by (cases t) (simp add: determinant_def det3_def setPosition_def Matrix4_identity_def)

lemma determinant_pose: "determinant (setPosition (makeRotationFromQuaternion q) t) = qdet q"
  by (cases t)
     (simp add: determinant_def det3_def setPosition_def makeRotationFromQuaternion_def Let_def
        qdet_def power2_eq_square algebra_simps)

lemma qdet_nonzero: "\<not> degenerate q \<Longrightarrow> qdet q \<noteq> 0"
proof
  assume nd: "\<not> degenerate q" and z: "qdet q = 0"
  let ?v = "qx q * qx q + qy q * qy q + qz q * qz q"
  have v0: "0 \<le> ?v" by simp
  have a: "0 \<le> (1 - 2 * ?v) ^ 2" by simp
  have b: "0 \<le> 4 * (qw q * qw q) * ?v" using v0 by simp
  from z a b have a0: "(1 - 2 * ?v) ^ 2 = 0" and b0: "4 * (qw q * qw q) * ?v = 0"
    unfolding qdet_def by linarith+
  from a0 have v: "2 * ?v = 1" by simp
  have vn: "?v \<noteq> 0"
  proof
    assume "?v = 0"
    then have "2 * ?v = 0" by (simp only: mult_zero_right)
    with v show False by simp
  qed
  from b0 vn have "qw q * qw q = 0" by (simp only: mult_eq_0_iff) simp
  then have "qw q = 0" by simp
  with v nd show False by (simp add: degenerate_def)
qed

lemma unit_not_degenerate: "unit_quaternion q \<Longrightarrow> \<not> degenerate q"
  by (auto simp: degenerate_def unit_quaternion_def power2_eq_square)

lemma invert_left_affine:
  assumes "affine m" "determinant m \<noteq> 0"
  shows "multiplyMatrices (invert m) m = Matrix4_identity"
proof (cases m)
  case (Matrix4 a11 a12 a13 a14 a21 a22 a23 a24 a31 a32 a33 a34 a41 a42 a43 a44)
  with assms have z: "a41 = 0" "a42 = 0" "a43 = 0" "a44 = 1" by (simp_all add: affine_def)
  from assms(2) have d: "determinant m \<noteq> 0" .
  show ?thesis
    using d unfolding Matrix4 z
    by (simp add: invert_def Let_def multiplyMatrices_def Matrix4_identity_def determinant_def
        det3_def divide_simps) algebra+
qed

lemma invert_right_affine:
  assumes "affine m" "determinant m \<noteq> 0"
  shows "multiplyMatrices m (invert m) = Matrix4_identity"
proof (cases m)
  case (Matrix4 a11 a12 a13 a14 a21 a22 a23 a24 a31 a32 a33 a34 a41 a42 a43 a44)
  with assms have z: "a41 = 0" "a42 = 0" "a43 = 0" "a44 = 1" by (simp_all add: affine_def)
  from assms(2) have d: "determinant m \<noteq> 0" .
  show ?thesis
    using d unfolding Matrix4 z
    by (simp add: invert_def Let_def multiplyMatrices_def Matrix4_identity_def determinant_def
        det3_def divide_simps) algebra+
qed

lemma apply_apply:
  "Vector4_applyMatrix4 (Vector4_applyMatrix4 v m) n = Vector4_applyMatrix4 v (multiplyMatrices n m)"
  by (cases v) (simp add: Vector4_applyMatrix4_def multiplyMatrices_def algebra_simps)

lemma apply_identity: "Vector4_applyMatrix4 v Matrix4_identity = v"
  by (cases v) (simp add: Vector4_applyMatrix4_def Matrix4_identity_def)

lemma apply_affine:
  "affine m \<Longrightarrow>
   \<exists>a b c. Vector3_applyMatrix4 (px, py, pz) m = Some (a, b, c) \<and>
     Vector4_applyMatrix4 (Vector4 px py pz 1) m = Vector4 a b c 1"
  by (simp add: affine_def Vector3_applyMatrix4_def Vector4_applyMatrix4_def)

lemma roundtrip_affine:
  assumes "affine m" "determinant m \<noteq> 0"
  shows "\<exists>a b c. Vector3_applyMatrix4 (px, py, pz) m = Some (a, b, c) \<and>
     Vector4_applyMatrix4 (Vector4 a b c 1) (invert m) = Vector4 px py pz 1"
proof -
  from apply_affine [OF assms(1), of px py pz] obtain a b c
    where s: "Vector3_applyMatrix4 (px, py, pz) m = Some (a, b, c)"
      and v: "Vector4_applyMatrix4 (Vector4 px py pz 1) m = Vector4 a b c 1" by blast
  have "Vector4_applyMatrix4 (Vector4 a b c 1) (invert m) =
        Vector4_applyMatrix4 (Vector4 px py pz 1) (multiplyMatrices (invert m) m)"
    unfolding v [symmetric] by (rule apply_apply)
  also have "\<dots> = Vector4 px py pz 1"
    by (simp only: invert_left_affine [OF assms] apply_identity)
  finally show ?thesis using s by blast
qed

lemma calc_result:
  assumes x: "worlds d w = Some x" and p: "egoPose_egoPose x = Some p"
    and nt: "\<not> transform_throws d x"
    and tp: "translation p = Some (px, py, pz)" and rot: "rotation p = Some q"
    and r: "r = (case refEgoPose d (frameInfo_scene x) of None \<Rightarrow> p | Some f0 \<Rightarrow> f0)"
    and tr: "translation r = Some (rx, ry, rz)"
    and off: "coordinatesOffset x = (ox, oy, oz)"
    and U: "U = setPosition (makeRotationFromQuaternion q) (px - rx, py - ry, pz - rz)"
    and L: "L = (if cfg_coordinateSystem d = ''utm''
                 then setPosition (makeRotationFromQuaternion q)
                        (ox + (px - rx), oy + (py - ry), oz + (pz - rz))
                 else setPosition Matrix4_identity (ox, oy, oz))"
  shows "calcTransformMatrix w d =
     (None,
      update_world w (\<lambda>y. y
        \<lparr>trans_lidar_utm := Some U, trans_lidar_scene := Some L,
         trans_utm_lidar := Some (invert U), trans_scene_lidar := Some (invert L),
         webglGroup_matrix := L\<rparr>)
        ((emit (CalcTransformMatrix w) d)\<lparr>refEgoPose := (refEgoPose d)(frameInfo_scene x \<mapsto> r)\<rparr>))"
proof (cases "refEgoPose d (frameInfo_scene x)")
  case None
  with nt p have ni: "\<not> inherited (frameInfo_scene x)" by (simp add: transform_throws_def)
  from None r have rp: "r = p" by simp
  with tp tr have e: "rx = px" "ry = py" "rz = pz" by simp_all
  show ?thesis
    unfolding U L rp e
    using x p None ni tp rot off
    by (simp add: calcTransformMatrix_def Let_def getRefEgoPose_def multiply_identity_right
        offset_times_pose)
next
  case (Some f0)
  from Some r have rf: "r = f0" by simp
  have i: "(emit (CalcTransformMatrix w) d)\<lparr>refEgoPose := (refEgoPose d)(frameInfo_scene x \<mapsto> f0)\<rparr> =
           emit (CalcTransformMatrix w) d"
    using Some by (simp add: emit_def fun_upd_idem)
  show ?thesis
    unfolding U L rf i
    using x p Some tp rot tr off rf
    by (simp add: calcTransformMatrix_def Let_def getRefEgoPose_def multiply_identity_right
        offset_times_pose)
qed

lemma calc_matrices:
  assumes x: "worlds d w = Some x"
    and f: "fst (calcTransformMatrix w d) = None"
    and nd: "case egoPose_egoPose x of
               None \<Rightarrow> True
             | Some p \<Rightarrow> (case rotation p of None \<Rightarrow> True | Some q \<Rightarrow> \<not> degenerate q)"
  shows "\<exists>y M U. worlds (snd (calcTransformMatrix w d)) w = Some y \<and>
     trans_lidar_scene y = Some M \<and> trans_scene_lidar y = Some (invert M) \<and>
     trans_lidar_utm y = Some U \<and> trans_utm_lidar y = Some (invert U) \<and>
     affine M \<and> affine U \<and> determinant M \<noteq> 0 \<and> determinant U \<noteq> 0"
proof (cases "egoPose_egoPose x")
  case None
  have i: "affine Matrix4_identity" "determinant Matrix4_identity \<noteq> 0"
    "invert Matrix4_identity = Matrix4_identity"
    by (simp_all add: affine_def Matrix4_identity_def determinant_def det3_def invert_def)
  show ?thesis
    using x None i affine_offset [of "coordinatesOffset x"]
      determinant_offset [of "coordinatesOffset x"]
    by (simp add: calcTransformMatrix_def Let_def)
next
  case (Some p)
  let ?r = "case refEgoPose d (frameInfo_scene x) of None \<Rightarrow> p | Some f0 \<Rightarrow> f0"
  from f calc_fst [OF x] have nt: "\<not> transform_throws d x" by (simp split: if_splits)
  from nt Some obtain t q where tq: "translation p = Some t" "rotation p = Some q"
    by (auto simp: transform_throws_def)
  from nt Some tq obtain tr where tr: "translation ?r = Some tr"
    by (auto simp: transform_throws_def split: option.splits)
  from nd Some tq have qd: "qdet q \<noteq> 0" by (simp add: qdet_nonzero)
  obtain px py pz where tp: "t = (px, py, pz)" by (cases t)
  obtain rx ry rz where rr: "tr = (rx, ry, rz)" by (cases tr)
  obtain ox oy oz where o: "coordinatesOffset x = (ox, oy, oz)" by (cases "coordinatesOffset x")
  note c = calc_result [OF x Some nt tq(1) [unfolded tp] tq(2) refl tr [unfolded rr] o refl refl]
  show ?thesis
    unfolding c using x qd
    by (simp add: affine_pose affine_offset determinant_pose determinant_offset)
qed

text \<open>
  C8, as amended. Two entries of one scene that have poses with a translation and a
  rotation, the scene not named like a member of \<^verbatim>\<open>Object.prototype\<close>; the reference
  pose \<open>r\<close>, with a translation, is the one the scene has, or the pose of the first
  entry when the scene has none yet.
  \<^verbatim>\<open>calcTransformMatrix\<close> on the first and then on the second entry returns normally
  and leaves \<open>r\<close> as the reference. The translation of each entry's lidar-to-utm
  transform is its pose translation minus that of \<open>r\<close>, component by component. Each
  entry is drawn at its own offset plus that difference in the coordinate mode
  \<^verbatim>\<open>utm\<close> and at its offset in any other mode; the entry whose pose became the
  reference has the translation zero and is drawn at its offset. The difference of the two drawn
  positions is the difference of the offsets plus, in the mode \<^verbatim>\<open>utm\<close>, the difference
  of the pose translations: \<open>r\<close> does not occur in it.
\<close>

theorem lidar_utm_translation_relative_to_reference:
  assumes "worlds d w1 = Some x1" "worlds d w2 = Some x2" "w1 \<noteq> w2"
    and "frameInfo_scene x1 = s" "frameInfo_scene x2 = s" "\<not> inherited s"
    and "egoPose_egoPose x1 = Some p1" "translation p1 = Some (ax, ay, az)"
      "rotation p1 = Some q1" "coordinatesOffset x1 = (ox, oy, oz)"
    and "egoPose_egoPose x2 = Some p2" "translation p2 = Some (bx, by, bz)"
      "rotation p2 = Some q2" "coordinatesOffset x2 = (ux, uy, uz)"
    and "r = (case refEgoPose d s of None \<Rightarrow> p1 | Some f0 \<Rightarrow> f0)"
      "translation r = Some (rx, ry, rz)"
    and "d' = snd (calcTransformMatrix w2 (snd (calcTransformMatrix w1 d)))"
  shows "fst (calcTransformMatrix w1 d) = None \<and>
         fst (calcTransformMatrix w2 (snd (calcTransformMatrix w1 d))) = None \<and>
         refEgoPose d' s = Some r \<and>
         lidar_utm_position d' w1 = Some (ax - rx, ay - ry, az - rz) \<and>
         lidar_utm_position d' w2 = Some (bx - rx, by - ry, bz - rz) \<and>
         render_position d' w1 =
           Some (if cfg_coordinateSystem d = ''utm''
                 then (ox + (ax - rx), oy + (ay - ry), oz + (az - rz)) else (ox, oy, oz)) \<and>
         render_position d' w2 =
           Some (if cfg_coordinateSystem d = ''utm''
                 then (ux + (bx - rx), uy + (by - ry), uz + (bz - rz)) else (ux, uy, uz)) \<and>
         (refEgoPose d s = None \<longrightarrow>
            lidar_utm_position d' w1 = Some (0, 0, 0) \<and>
            render_position d' w1 = Some (ox, oy, oz)) \<and>
         (case (render_position d' w1, render_position d' w2) of
            (Some (a1, b1, c1), Some (a2, b2, c2)) \<Rightarrow>
              (a1 - a2, b1 - b2, c1 - c2) =
                (if cfg_coordinateSystem d = ''utm''
                 then (ox - ux + (ax - bx), oy - uy + (ay - by), oz - uz + (az - bz))
                 else (ox - ux, oy - uy, oz - uz))
          | _ \<Rightarrow> False)"
proof -
  note x1 = assms(1) and x2 = assms(2) and ne = assms(3) and s1 = assms(4) and s2 = assms(5)
    and ni = assms(6) and e1 = assms(7) and t1 = assms(8) and q1 = assms(9) and o1 = assms(10)
    and e2 = assms(11) and t2 = assms(12) and q2 = assms(13) and o2 = assms(14)
    and r = assms(15) and tr = assms(16) and d' = assms(17)
  let ?d0 = "(emit (CalcTransformMatrix w1) d)\<lparr>refEgoPose := (refEgoPose d)(s \<mapsto> r)\<rparr>"
  let ?U1 = "setPosition (makeRotationFromQuaternion q1) (ax - rx, ay - ry, az - rz)"
  let ?L1 = "if cfg_coordinateSystem d = ''utm''
             then setPosition (makeRotationFromQuaternion q1)
                    (ox + (ax - rx), oy + (ay - ry), oz + (az - rz))
             else setPosition Matrix4_identity (ox, oy, oz)"
  let ?g1 = "\<lambda>y. y\<lparr>trans_lidar_utm := Some ?U1, trans_lidar_scene := Some ?L1,
         trans_utm_lidar := Some (invert ?U1), trans_scene_lidar := Some (invert ?L1),
         webglGroup_matrix := ?L1\<rparr>"
  let ?d1 = "update_world w1 ?g1 ?d0"
  have nt1: "\<not> transform_throws d x1"
    using s1 ni e1 t1 q1 r tr by (auto simp: transform_throws_def split: option.splits)
  have r1: "r = (case refEgoPose d (frameInfo_scene x1) of None \<Rightarrow> p1 | Some f0 \<Rightarrow> f0)"
    using s1 r by simp
  have c1: "calcTransformMatrix w1 d = (None, ?d1)"
    using calc_result [OF x1 e1 nt1 t1 q1 r1 tr o1 refl refl] s1 by simp
  have y2: "worlds ?d1 w2 = Some x2" using x2 ne by simp
  have nt2: "\<not> transform_throws ?d1 x2"
    using s2 e2 t2 q2 tr by (simp add: transform_throws_def)
  have r2: "r = (case refEgoPose ?d1 (frameInfo_scene x2) of None \<Rightarrow> p2 | Some f0 \<Rightarrow> f0)"
    using s2 by simp
  let ?d2 = "(emit (CalcTransformMatrix w2) ?d1)\<lparr>refEgoPose := (refEgoPose ?d1)(s \<mapsto> r)\<rparr>"
  let ?U2 = "setPosition (makeRotationFromQuaternion q2) (bx - rx, by - ry, bz - rz)"
  let ?L2 = "if cfg_coordinateSystem ?d1 = ''utm''
             then setPosition (makeRotationFromQuaternion q2)
                    (ux + (bx - rx), uy + (by - ry), uz + (bz - rz))
             else setPosition Matrix4_identity (ux, uy, uz)"
  let ?g2 = "\<lambda>y. y\<lparr>trans_lidar_utm := Some ?U2, trans_lidar_scene := Some ?L2,
         trans_utm_lidar := Some (invert ?U2), trans_scene_lidar := Some (invert ?L2),
         webglGroup_matrix := ?L2\<rparr>"
  have c2: "calcTransformMatrix w2 ?d1 = (None, update_world w2 ?g2 ?d2)"
    using calc_result [OF y2 e2 nt2 t2 q2 r2 tr o2 refl refl] s2 by simp
  have dd: "d' = update_world w2 ?g2 ?d2" unfolding d' c1 snd_conv c2 ..
  have w1: "worlds d' w1 = Some (?g1 x1)" unfolding dd using x1 ne by simp
  have w2: "worlds d' w2 = Some (?g2 x2)" unfolding dd using x2 ne by simp
  have cfg: "cfg_coordinateSystem ?d1 = cfg_coordinateSystem d" by simp
  have rf: "refEgoPose d' s = Some r" unfolding dd by simp
  have u1: "lidar_utm_position d' w1 = Some (ax - rx, ay - ry, az - rz)"
    unfolding lidar_utm_position_def w1 by (simp add: Matrix4_position_def setPosition_def)
  have u2: "lidar_utm_position d' w2 = Some (bx - rx, by - ry, bz - rz)"
    unfolding lidar_utm_position_def w2 by (simp add: Matrix4_position_def setPosition_def)
  have p1: "render_position d' w1 =
           Some (if cfg_coordinateSystem d = ''utm''
                 then (ox + (ax - rx), oy + (ay - ry), oz + (az - rz)) else (ox, oy, oz))"
    unfolding render_position_def w1 by (simp add: Matrix4_position_def setPosition_def)
  have p2: "render_position d' w2 =
           Some (if cfg_coordinateSystem d = ''utm''
                 then (ux + (bx - rx), uy + (by - ry), uz + (bz - rz)) else (ux, uy, uz))"
    unfolding render_position_def w2 cfg by (simp add: Matrix4_position_def setPosition_def)
  have df: "(case (render_position d' w1, render_position d' w2) of
            (Some (a1, b1, c1), Some (a2, b2, c2)) \<Rightarrow>
              (a1 - a2, b1 - b2, c1 - c2) =
                (if cfg_coordinateSystem d = ''utm''
                 then (ox - ux + (ax - bx), oy - uy + (ay - by), oz - uz + (az - bz))
                 else (ox - ux, oy - uy, oz - uz))
          | _ \<Rightarrow> False)"
    unfolding p1 p2 by simp
  have f1: "fst (calcTransformMatrix w1 d) = None" unfolding c1 by simp
  have f2: "fst (calcTransformMatrix w2 (snd (calcTransformMatrix w1 d))) = None"
    unfolding c1 snd_conv c2 by simp
  have z: "refEgoPose d s = None \<longrightarrow>
            lidar_utm_position d' w1 = Some (0, 0, 0) \<and>
            render_position d' w1 = Some (ox, oy, oz)"
  proof
    assume "refEgoPose d s = None"
    with r have "r = p1" by simp
    with t1 tr have "ax = rx" "ay = ry" "az = rz" by simp_all
    then show "lidar_utm_position d' w1 = Some (0, 0, 0) \<and>
               render_position d' w1 = Some (ox, oy, oz)"
      unfolding u1 p1 by simp
  qed
  show ?thesis using f1 f2 rf u1 u2 p1 p2 z df by blast
qed

lemmas eval3_defs = posed_entries_def posed_created_def posed_meta_def singular_entry_def
  singular_meta_def Data_init_def createWorld_def
  allocateOffset_def Offsets_init_def World_new_def EgoPose_preload_def andThen_def findIndex_def
  perform_def deliver_def update_world_def on_subitem_preload_finished_def preloaded_def
  calcTransformMatrix_def emit_def Images_loaded_def Let_def World_go_def
  getRefEgoPose_def includes_array_def inherited_def Object_prototype_names_def

lemma posed_created_pair:
  "cfg_coordinateSystem posed_created = ''utm'' \<and> refEgoPose posed_created ''A'' = None \<and>
   (\<exists>x. worlds posed_created 0 = Some x \<and> frameInfo_scene x = ''A'' \<and>
      coordinatesOffset x = (0, 0, 0) \<and>
      egoPose_egoPose x = Some \<lparr>translation = Some (100, 200, 5), rotation = Some (Quaternion 0 0 0 1)\<rparr>) \<and>
   (\<exists>x. worlds posed_created 1 = Some x \<and> frameInfo_scene x = ''A'' \<and>
      coordinatesOffset x = (0, - 1000, 0) \<and>
      egoPose_egoPose x =
        Some \<lparr>translation = Some (103, 204, 7), rotation = Some (Quaternion 0 0 (3 / 5) (4 / 5))\<rparr>)"
  by (simp add: eval3_defs)

theorem lidar_utm_translation_witness:
  "lidar_utm_position
     (snd (calcTransformMatrix 1 (snd (calcTransformMatrix 0 posed_created)))) 1 = Some (3, 4, 2) \<and>
   render_position
     (snd (calcTransformMatrix 1 (snd (calcTransformMatrix 0 posed_created)))) 1 =
     Some (3, - 996, 2) \<and>
   lidar_utm_position
     (snd (calcTransformMatrix 0 (snd (calcTransformMatrix 1 posed_created)))) 0 =
     Some (- 3, - 4, - 2) \<and>
   render_position
     (snd (calcTransformMatrix 0 (snd (calcTransformMatrix 1 posed_created)))) 0 =
     Some (- 3, - 4, - 2)"
proof -
  let ?p0 = "\<lparr>translation = Some (100, 200, 5), rotation = Some (Quaternion 0 0 0 1)\<rparr>"
  let ?p1 = "\<lparr>translation = Some (103, 204, 7),
             rotation = Some (Quaternion 0 0 (3 / 5) (4 / 5))\<rparr>"
  from posed_created_pair obtain x0 x1 where h:
    "cfg_coordinateSystem posed_created = ''utm''" "refEgoPose posed_created ''A'' = None"
    "worlds posed_created 0 = Some x0" "frameInfo_scene x0 = ''A''"
    "coordinatesOffset x0 = (0, 0, 0)" "egoPose_egoPose x0 = Some ?p0"
    "worlds posed_created 1 = Some x1" "frameInfo_scene x1 = ''A''"
    "coordinatesOffset x1 = (0, - 1000, 0)" "egoPose_egoPose x1 = Some ?p1"
    by blast
  have ne: "(0::nat) \<noteq> 1" "(1::nat) \<noteq> 0" by simp_all
  have ni: "\<not> inherited ''A''" by (simp add: inherited_def Object_prototype_names_def)
  have t0: "translation ?p0 = Some (100, 200, 5)"
    and t1: "translation ?p1 = Some (103, 204, 7)"
    and q0: "rotation ?p0 = Some (Quaternion 0 0 0 1)"
    and q1: "rotation ?p1 = Some (Quaternion 0 0 (3 / 5) (4 / 5))"
    by simp_all
  have r0: "?p0 = (case refEgoPose posed_created ''A'' of None \<Rightarrow> ?p0 | Some f0 \<Rightarrow> f0)"
    and r1: "?p1 = (case refEgoPose posed_created ''A'' of None \<Rightarrow> ?p1 | Some f0 \<Rightarrow> f0)"
    using h(2) by simp_all
  note a = lidar_utm_translation_relative_to_reference
    [OF h(3) h(7) ne(1) h(4) h(8) ni h(6) t0 q0 h(5) h(10) t1 q1 h(9) r0 t0 refl]
  note b = lidar_utm_translation_relative_to_reference
    [OF h(7) h(3) ne(2) h(8) h(4) ni h(10) t1 q1 h(9) h(6) t0 q0 h(5) r1 t1 refl]
  show ?thesis using a b h(1) by simp
qed

text \<open>
  C8 as stated fails in its remark on the render origin: when the sub-loads of frame
  11 settle before those of frame 10, the reference pose is that of frame 11, and
  frame 11 is drawn at its offset (0, -1000, 0), not at the origin of the render
  space; the origin is taken by frame 10, drawn at (-3, -4, -2).
\<close>

theorem reference_frame_drawn_at_its_offset:
  "refEgoPose posed_entries ''A'' =
     Some \<lparr>translation = Some (103, 204, 7), rotation = Some (Quaternion 0 0 (3 / 5) (4 / 5))\<rparr> \<and>
   map_option frameInfo_frame (worlds posed_entries 1) = Some 11 \<and>
   lidar_utm_position posed_entries 1 = Some (0, 0, 0) \<and>
   render_position posed_entries 1 = Some (0, - 1000, 0) \<and>
   render_position posed_entries 0 = Some (- 3, - 4, - 2)"
  by (simp add: eval3_defs lidar_utm_position_def render_position_def Matrix4_position_def
      multiplyMatrices_def setPosition_def Matrix4_identity_def makeRotationFromQuaternion_def)

text \<open>
  C9 (round trip). For an entry whose transforms have been computed, without a pose
  or with a pose whose quaternion is not degenerate, as is every unit quaternion, the
  rotation of section 4.3 (\<open>unit_not_degenerate\<close>):
  \<^verbatim>\<open>scenePosToLidar(lidarPosToScene(p))\<close> is \<open>p\<close> (with homogeneous coordinate 1)
  for every point \<open>p\<close>, \<^verbatim>\<open>trans_scene_lidar\<close> is the two-sided inverse of
  \<^verbatim>\<open>trans_lidar_scene\<close>, and \<^verbatim>\<open>trans_utm_lidar\<close> of \<^verbatim>\<open>trans_lidar_utm\<close>. The matrix
  library is taken over the real numbers, where the round trip is exact.
\<close>

theorem roundtrip_scene_lidar:
  assumes "worlds d w = Some x"
    and "fst (calcTransformMatrix w d) = None"
    and "case egoPose_egoPose x of
           None \<Rightarrow> True
         | Some p \<Rightarrow> (case rotation p of None \<Rightarrow> True | Some q \<Rightarrow> \<not> degenerate q)"
  shows "\<exists>y M U. worlds (snd (calcTransformMatrix w d)) w = Some y \<and>
     (\<exists>a b c. lidarPosToScene y (px, py, pz) = Inr (Some (a, b, c)) \<and>
        scenePosToLidar y (a, b, c) = Inr (Vector4 px py pz 1)) \<and>
     trans_lidar_scene y = Some M \<and> trans_scene_lidar y = Some (invert M) \<and>
     multiplyMatrices (invert M) M = Matrix4_identity \<and>
     multiplyMatrices M (invert M) = Matrix4_identity \<and>
     trans_lidar_utm y = Some U \<and> trans_utm_lidar y = Some (invert U) \<and>
     multiplyMatrices (invert U) U = Matrix4_identity \<and>
     multiplyMatrices U (invert U) = Matrix4_identity"
proof -
  from calc_matrices [OF assms] obtain y M U where
    y: "worlds (snd (calcTransformMatrix w d)) w = Some y"
    and m: "trans_lidar_scene y = Some M" "trans_scene_lidar y = Some (invert M)"
    and u: "trans_lidar_utm y = Some U" "trans_utm_lidar y = Some (invert U)"
    and am: "affine M" "determinant M \<noteq> 0" and au: "affine U" "determinant U \<noteq> 0"
    by blast
  from roundtrip_affine [OF am, of px py pz] obtain a b c where
    r: "Vector3_applyMatrix4 (px, py, pz) M = Some (a, b, c)"
       "Vector4_applyMatrix4 (Vector4 a b c 1) (invert M) = Vector4 px py pz 1" by blast
  have rt: "\<exists>a b c. lidarPosToScene y (px, py, pz) = Inr (Some (a, b, c)) \<and>
        scenePosToLidar y (a, b, c) = Inr (Vector4 px py pz 1)"
    using r m by (simp add: lidarPosToScene_def scenePosToLidar_def)
  show ?thesis
    using y rt m u invert_left_affine [OF am] invert_right_affine [OF am]
      invert_left_affine [OF au] invert_right_affine [OF au]
    by blast
qed

lemma posed_entries_second:
  "\<exists>x f0. worlds posed_entries 1 = Some x \<and> frameInfo_scene x = ''A'' \<and>
      egoPose_egoPose x =
        Some \<lparr>translation = Some (103, 204, 7),
               rotation = Some (Quaternion 0 0 (3 / 5) (4 / 5))\<rparr> \<and>
      refEgoPose posed_entries ''A'' = Some f0 \<and> translation f0 \<noteq> None"
  by (simp add: eval3_defs)

theorem roundtrip_scene_lidar_witness:
  "\<exists>y a b c. worlds (snd (calcTransformMatrix 1 posed_entries)) 1 = Some y \<and>
     lidarPosToScene y (1, 2, 3) = Inr (Some (a, b, c)) \<and>
     scenePosToLidar y (a, b, c) = Inr (Vector4 1 2 3 1)"
proof -
  from posed_entries_second obtain x f0 where x: "worlds posed_entries 1 = Some x"
    "frameInfo_scene x = ''A''"
    "egoPose_egoPose x =
       Some \<lparr>translation = Some (103, 204, 7),
              rotation = Some (Quaternion 0 0 (3 / 5) (4 / 5))\<rparr>"
    "refEgoPose posed_entries ''A'' = Some f0" "translation f0 \<noteq> None"
    by blast
  have nt: "\<not> transform_throws posed_entries x"
    using x(2-5) by (simp add: transform_throws_def)
  have f: "fst (calcTransformMatrix 1 posed_entries) = None"
    using calc_fst [OF x(1)] nt by simp
  have "unit_quaternion (Quaternion 0 0 (3 / 5) (4 / 5))"
    by (simp add: unit_quaternion_def power2_eq_square)
  then have u: "case egoPose_egoPose x of
           None \<Rightarrow> True
         | Some p \<Rightarrow> (case rotation p of None \<Rightarrow> True | Some q \<Rightarrow> \<not> degenerate q)"
    using x(3) by (simp add: unit_not_degenerate)
  from roundtrip_scene_lidar [OF x(1) f u, of 1 2 3] show ?thesis by blast
qed

lemma singular_matrices:
  "map_option (\<lambda>y. (trans_lidar_scene y, trans_scene_lidar y)) (worlds singular_entry 0) =
     Some (Some (Matrix4 (1 / 2) (1 / 2) 0 0  (1 / 2) (1 / 2) 0 0  0 0 0 0  0 0 0 1),
           Some (invert (Matrix4 (1 / 2) (1 / 2) 0 0  (1 / 2) (1 / 2) 0 0  0 0 0 0  0 0 0 1)))"
  by (simp add: eval3_defs multiplyMatrices_def setPosition_def Matrix4_identity_def
      makeRotationFromQuaternion_def)

lemma singular_inverse:
  "invert (Matrix4 (1 / 2) (1 / 2) 0 0  (1 / 2) (1 / 2) 0 0  0 0 0 0  0 0 0 1) = Matrix4_zero"
  by (simp add: invert_def determinant_def det3_def)

text \<open>
  The condition on the quaternion is needed. The quaternion (1/2, 1/2, 0, 0), of
  squared norm 1/2 and so outside the unit quaternions of section 4.3, is degenerate:
  in the continuous coordinate mode \<^verbatim>\<open>trans_lidar_scene\<close> is singular, its
  \<^verbatim>\<open>invert()\<close> is the zero matrix, and the point (1, 2, 3) comes back as
  (0, 0, 0, 0).
\<close>

lemma degenerate_pose_has_no_inverse:
  "map_option (\<lambda>y. lidarPosToScene y (1, 2, 3)) (worlds singular_entry 0) =
     Some (Inr (Some (3 / 2, 3 / 2, 0))) \<and>
   map_option (\<lambda>y. scenePosToLidar y (3 / 2, 3 / 2, 0)) (worlds singular_entry 0) =
     Some (Inr (Vector4 0 0 0 0)) \<and>
   map_option (\<lambda>y. lidarPosToScene y (2, 1, 3)) (worlds singular_entry 0) =
     Some (Inr (Some (3 / 2, 3 / 2, 0)))"
proof -
  from singular_matrices obtain y where y: "worlds singular_entry 0 = Some y"
    "trans_lidar_scene y = Some (Matrix4 (1 / 2) (1 / 2) 0 0  (1 / 2) (1 / 2) 0 0  0 0 0 0  0 0 0 1)"
    "trans_scene_lidar y = Some Matrix4_zero"
    unfolding singular_inverse by auto
  show ?thesis
    using y
    by (simp add: lidarPosToScene_def scenePosToLidar_def Vector3_applyMatrix4_def
        Vector4_applyMatrix4_def Matrix4_zero_def)
qed

section \<open>Rotation conversion\<close>




end
